theory Spec2Isabelle
  imports Complex_Main "HOL-Library.Sublist" "HOL-Library.Product_Lexorder" "HOL-Library.Log_Nat"
begin

section \<open>Python strings\<close>

text \<open>
  A Python \<open>str\<close> is a sequence of code points. The model takes a \<open>char\<close> as one code
  point below 256 (Latin-1), so \<open>length\<close> counts what Python's \<open>len\<close> counts. The
  character classes below are those of \<open>str.isspace\<close>, \<open>str.lower\<close> and of the \<open>re\<close>
  module on that range.
\<close>

definition code :: "char \<Rightarrow> nat" where
  "code c = of_char c"

definition isspace :: "char \<Rightarrow> bool" where
  "isspace c = (let n = code c in (9 \<le> n \<and> n \<le> 13) \<or> (28 \<le> n \<and> n \<le> 32) \<or> n = 133 \<or> n = 160)"

definition lower_char :: "char \<Rightarrow> char" where
  "lower_char c =
     (let n = code c
      in if (65 \<le> n \<and> n \<le> 90) \<or> (192 \<le> n \<and> n \<le> 222 \<and> n \<noteq> 215) then char_of (n + 32) else c)"

definition lower :: "string \<Rightarrow> string" where
  "lower s = map lower_char s"

text \<open>\<open>s.strip()\<close>: leading and trailing whitespace removed.\<close>

definition strip :: "string \<Rightarrow> string" where
  "strip s = rev (dropWhile isspace (rev (dropWhile isspace s)))"

text \<open>
  \<open>runs_aux P cur s\<close> scans \<open>s\<close> and collects the maximal runs of characters satisfying
  \<open>P\<close>, \<open>cur\<close> being the run in progress. \<open>s.split()\<close> is the list of maximal runs of
  non-whitespace characters.
\<close>

fun runs_aux :: "(char \<Rightarrow> bool) \<Rightarrow> string \<Rightarrow> string \<Rightarrow> string list" where
  "runs_aux P cur [] = (if cur = [] then [] else [cur])"
| "runs_aux P cur (c # cs) =
     (if P c then runs_aux P (cur @ [c]) cs
      else if cur = [] then runs_aux P [] cs else cur # runs_aux P [] cs)"

definition split :: "string \<Rightarrow> string list" where
  "split s = runs_aux (\<lambda>c. \<not> isspace c) [] s"

text \<open>\<open>a in b\<close> on strings: \<open>a\<close> occurs in \<open>b\<close> as a contiguous substring.\<close>

fun substr :: "string \<Rightarrow> string \<Rightarrow> bool" where
  "substr a [] = (a = [])"
| "substr a (c # cs) = (prefix a (c # cs) \<or> substr a cs)"

text \<open>\<open>xs[:k]\<close>: a negative \<open>k\<close> counts from the end.\<close>

definition slice_to :: "int \<Rightarrow> 'a list \<Rightarrow> 'a list" where
  "slice_to k xs = (if 0 \<le> k then take (nat k) xs else take (length xs - nat (- k)) xs)"

section \<open>Python floats\<close>

text \<open>
  A Python \<open>float\<close> is an IEEE 754 binary64 number. The scorers and the retrievals add,
  multiply, divide and compare floats, so this arithmetic is modelled bit for bit: a
  finite float is taken as the rational number it denotes, and every operation rounds
  its exact result to the nearest float, a tie going to the even mantissa. A float has a
  mantissa of 53 bits and a binary exponent not below \<open>-1074\<close>. A decimal literal such
  as \<open>0.1\<close>, the conversion of an \<open>int\<close> and the division \<open>int / int\<close> round the exact
  value in the same way. The integer columns are SQL integers, so no value comes near
  \<open>2 ^ 1024\<close>, where a float overflows, and \<open>fl\<close> has no case for it.

  Elsewhere (the durations of the operational correlator, the confidences) a float is
  only stored, printed or compared with a whole number of seconds, and the comparison of
  a rounded quotient with an integer is that of the exact quotient; there the float is
  kept as the exact real.
\<close>

type_synonym float = rat

text \<open>
  \<open>ilog2 x\<close> is the binary exponent of a positive rational: \<open>2 ^ ilog2 x \<le> x < 2 ^ (ilog2 x + 1)\<close>.
  It is read off the bit lengths of numerator and denominator.
\<close>

definition ilog2 :: "rat \<Rightarrow> int" where
  "ilog2 x = (let (p, q) = quotient_of x; k = bitlen p - bitlen q
              in if 2 powi k \<le> x then k else k - 1)"

definition round_half_even :: "rat \<Rightarrow> int" where
  "round_half_even x =
     (let f = \<lfloor>x\<rfloor>; r = x - of_int f
      in if r < 1 / 2 then f else if r > 1 / 2 then f + 1 else if even f then f else f + 1)"

text \<open>\<open>fl x\<close>: the float nearest to \<open>x\<close>, a multiple of \<open>2 ^ e\<close> with \<open>e\<close> the exponent of the
  last mantissa bit.\<close>

definition fl :: "rat \<Rightarrow> float" where
  "fl x = (if x = 0 then 0
           else let e = max (ilog2 \<bar>x\<bar> - 52) (- 1074)
                in of_int (round_half_even (x / 2 powi e)) * 2 powi e)"

definition fadd :: "float \<Rightarrow> float \<Rightarrow> float" where
  "fadd x y = fl (x + y)"

definition fmul :: "float \<Rightarrow> float \<Rightarrow> float" where
  "fmul x y = fl (x * y)"

definition fdiv :: "float \<Rightarrow> float \<Rightarrow> float" where
  "fdiv x y = fl (x / y)"

text \<open>\<open>float(n)\<close>, the conversion applied to an \<open>int\<close> operand of a float operation.\<close>

definition float_of_int :: "int \<Rightarrow> float" where
  "float_of_int n = fl (of_int n)"

text \<open>\<open>a / b\<close> on two \<open>int\<close>s: the exact quotient, rounded once.\<close>

definition truediv :: "int \<Rightarrow> int \<Rightarrow> float" where
  "truediv a b = fl (of_int a / of_int b)"

section \<open>Text relevance scorer (app/models/database.py)\<close>

text \<open>
  Columns are taken at their declared types. A \<open>DateTime\<close> is the number of microseconds
  since the epoch. A float literal \<open>0.4\<close> is \<open>fl (4 / 10)\<close>. \<open>usefulness_count\<close> of a
  training case is read through \<open>int(... or 0)\<close> by its callers, so it may be \<open>None\<close>.
\<close>

record TrainingData =
  td_id :: int
  td_incident_description :: string
  td_expected_root_cause :: string
  td_category :: string
  td_is_validated :: int
  td_usefulness_count :: "int option"

record KnowledgeBase =
  kb_id :: int
  kb_title :: string
  kb_content :: string
  kb_keywords :: string
  kb_priority :: int
  kb_status :: string
  kb_view_count :: int
  kb_usefulness_count :: int
  kb_last_used :: "int option"

definition calculate_similarity :: "TrainingData \<Rightarrow> string \<Rightarrow> float" where
  "calculate_similarity self query =
     (let query_lower = lower query;
          description_lower = lower (td_incident_description self);
          query_words = set (split query_lower);
          description_words = set (split description_lower)
      in if query_words = {} then 0
         else
           let intersection = query_words \<inter> description_words;
               union = query_words \<union> description_words;
               jaccard = (if union \<noteq> {}
                          then truediv (int (card intersection)) (int (card union)) else 0);
               phrase_bonus = (if substr query_lower description_lower then fl (2 / 10) else 0);
               category_bonus = (if substr (lower (td_category self)) query_lower
                                 then fl (1 / 10) else 0)
           in min (fadd (fadd jaccard phrase_bonus) category_bonus) 1)"

text \<open>\<open>timedelta.days\<close> of a difference of two datetimes: the floor of the day count.\<close>

definition days_between :: "int \<Rightarrow> int \<Rightarrow> int" where
  "days_between now t = (now - t) div 86400000000"

text \<open>\<open>now\<close> is the value of \<open>datetime.utcnow()\<close> read by the usage bonus.\<close>

definition calculate_relevance :: "int \<Rightarrow> KnowledgeBase \<Rightarrow> string \<Rightarrow> float" where
  "calculate_relevance now self query =
     (let query_lower = lower query;
          content_lower = lower (kb_content self);
          title_lower = lower (kb_title self);
          keywords_lower = lower (kb_keywords self);
          score0 = (0 :: float);
          score1 = (if substr query_lower title_lower then fadd score0 (fl (4 / 10)) else score0);
          score2 = (if substr query_lower content_lower then fadd score1 (fl (3 / 10)) else score1);
          score3 = (if substr query_lower keywords_lower then fadd score2 (fl (2 / 10)) else score2);
          query_words = set (split query_lower);
          title_words = set (split title_lower);
          content_words = set (split content_lower);
          title_matches = card (query_words \<inter> title_words);
          score4 = (if title_matches > 0
                    then fadd score3
                           (fmul (fl (2 / 10))
                              (truediv (int title_matches) (int (card query_words))))
                    else score3);
          content_matches = card (query_words \<inter> content_words);
          score5 = (if content_matches > 0
                    then fadd score4
                           (fmul (fl (1 / 10))
                              (truediv (int content_matches) (int (card query_words))))
                    else score4);
          priority_bonus = fmul (float_of_int (kb_priority self)) (fl (5 / 100));
          score6 = fadd score5 priority_bonus;
          score7 = (case kb_last_used self of
                      None \<Rightarrow> score6
                    | Some last_used \<Rightarrow>
                        if kb_view_count self > 0
                        then let days_since_use = days_between now last_used;
                                 usage_bonus = min (fl (1 / 10))
                                   (fdiv (fmul (float_of_int (kb_view_count self)) (fl (1 / 100)))
                                      (float_of_int (max days_since_use 1)))
                             in fadd score6 usage_bonus
                        else score6)
      in min score7 1)"

section \<open>Retrieval services (app/services)\<close>

text \<open>
  A table is the list of its rows in the order the query returns them. Python's
  \<open>list.sort(key=..., reverse=True)\<close> is a stable sort by descending key: it is
  \<open>sort_key\<close> on the negated score.
\<close>

text \<open>\<open>int(getattr(example, 'usefulness_count', 0) or 0)\<close>\<close>

definition usefulness_int :: "TrainingData \<Rightarrow> int" where
  "usefulness_int example = (case td_usefulness_count example of None \<Rightarrow> 0 | Some u \<Rightarrow> u)"

definition find_relevant_examples_async :: "TrainingData list \<Rightarrow> string \<Rightarrow> int \<Rightarrow> TrainingData list" where
  "find_relevant_examples_async db query limit =
     (let all_training = filter (\<lambda>t. td_is_validated t = 1) db
      in if all_training = [] then []
         else
           let scored_examples =
                 map (\<lambda>example. (example,
                        fadd (calculate_similarity example query)
                          (fmul (float_of_int (usefulness_int example)) (fl (5 / 100)))))
                   (filter (\<lambda>example. calculate_similarity example query > fl (1 / 10))
                      all_training);
               sorted_examples = sort_key (\<lambda>x. - snd x) scored_examples
           in map fst (slice_to limit sorted_examples))"

text \<open>The usage statistics written to each returned knowledge entry.\<close>

definition touch :: "int \<Rightarrow> KnowledgeBase \<Rightarrow> KnowledgeBase" where
  "touch now entry = entry\<lparr>kb_view_count := kb_view_count entry + 1, kb_last_used := Some now\<rparr>"

text \<open>
  The ranking half of \<open>find_relevant_knowledge_async\<close>: the scored Active entries,
  sorted, before the slice.
\<close>

definition scored_entries :: "int \<Rightarrow> KnowledgeBase list \<Rightarrow> string \<Rightarrow> (KnowledgeBase \<times> float) list" where
  "scored_entries now db query =
     (let all_knowledge = filter (\<lambda>k. kb_status k = ''Active'') db
      in sort_key (\<lambda>x. - snd x)
           (map (\<lambda>entry. (entry,
                   fadd (calculate_relevance now entry query)
                     (fmul (float_of_int (kb_usefulness_count entry)) (fl (5 / 100)))))
              (filter (\<lambda>entry. calculate_relevance now entry query > fl (1 / 10))
                 all_knowledge)))"

text \<open>
  The result is the returned list and the table after the call: the rows of the returned
  entries (found by primary key) carry the new usage statistics.
\<close>

definition find_relevant_knowledge_async ::
    "int \<Rightarrow> KnowledgeBase list \<Rightarrow> string \<Rightarrow> int \<Rightarrow> KnowledgeBase list \<times> KnowledgeBase list" where
  "find_relevant_knowledge_async now db query limit =
     (let all_knowledge = filter (\<lambda>k. kb_status k = ''Active'') db
      in if all_knowledge = [] then ([], db)
         else
           let top = map fst (slice_to limit (scored_entries now db query));
               result = map (touch now) top
           in (result,
               map (\<lambda>row. if kb_id row \<in> kb_id ` set top then touch now row else row) db))"

section \<open>Solution fusion (simple_main.py, analyze_root_cause)\<close>

record SolutionFeedback =
  fb_id :: int
  fb_incident_description :: string
  fb_solution_description :: string
  fb_solution_order :: int
  fb_solution_type :: string
  fb_source_type :: string
  fb_knowledge_base_id :: "int option"
  fb_training_data_id :: "int option"
  fb_rca_id :: "int option"
  fb_usefulness_count :: int
  fb_marked_at :: int

text \<open>
  A recommended solution, with the keys of the dictionary that deduplication, the final
  sort and the feedback match read or write; \<open>sol_case\<close> is the id of the training case
  the \<open>source\<close> key names.
\<close>

record solution =
  sol_order :: int
  sol_description :: string
  sol_case :: int
  sol_usefulness_count :: int
  sol_user_verified :: bool
  sol_feedback_incident_description :: "string option"
  sol_feedback_solution_description :: "string option"

text \<open>The bidirectional, case-insensitive feedback match of one candidate text.\<close>

definition feedback_matches :: "string \<Rightarrow> SolutionFeedback \<Rightarrow> bool" where
  "feedback_matches desc fb =
     (desc \<noteq> [] \<and> fb_solution_description fb \<noteq> [] \<and>
      (substr (lower desc) (lower (fb_solution_description fb)) \<or>
       substr (lower (fb_solution_description fb)) (lower desc)))"

definition solution_obj :: "SolutionFeedback list \<Rightarrow> nat \<Rightarrow> TrainingData \<Rightarrow> solution" where
  "solution_obj feedback_rows idx match =
     (let solution =
            (if td_expected_root_cause match \<noteq> [] then td_expected_root_cause match
             else if td_incident_description match \<noteq> [] then td_incident_description match
             else ''See training data'');
          desc = solution;
          description = (if length solution > 500 then take 500 solution @ ''...'' else solution)
      in case find (feedback_matches desc) feedback_rows of
           None \<Rightarrow>
             \<lparr>sol_order = int idx, sol_description = description, sol_case = td_id match,
              sol_usefulness_count = usefulness_int match, sol_user_verified = False,
              sol_feedback_incident_description = None,
              sol_feedback_solution_description = None\<rparr>
         | Some fb \<Rightarrow>
             \<lparr>sol_order = int idx, sol_description = description, sol_case = td_id match,
              sol_usefulness_count = fb_usefulness_count fb, sol_user_verified = True,
              sol_feedback_incident_description = Some (fb_incident_description fb),
              sol_feedback_solution_description = Some (fb_solution_description fb)\<rparr>)"

text \<open>The deduplication loop, \<open>seen\<close> being \<open>seen_descriptions\<close>.\<close>

fun unique_solutions :: "string set \<Rightarrow> solution list \<Rightarrow> solution list" where
  "unique_solutions seen [] = []"
| "unique_solutions seen (s # ss) =
     (let desc_lower = strip (lower (sol_description s))
      in if desc_lower \<notin> seen then s # unique_solutions (insert desc_lower seen) ss
         else unique_solutions seen ss)"

text \<open>
  From the ranked training matches (\<open>top_training\<close>) and the feedback table to the
  final \<open>recommended_solutions_data\<close>: enrich, deduplicate, sort, renumber.
\<close>

definition recommended_solutions :: "SolutionFeedback list \<Rightarrow> TrainingData list \<Rightarrow> solution list" where
  "recommended_solutions feedback_table top_training =
     (let feedback_rows = filter (\<lambda>fb. fb_usefulness_count fb > 0) feedback_table;
          recommended_solutions_data =
            map (\<lambda>(idx, match). solution_obj feedback_rows idx match) (enumerate 1 top_training);
          deduplicated = unique_solutions {} recommended_solutions_data;
          sorted_solutions =
            sort_key (\<lambda>s. (\<not> sol_user_verified s, - sol_usefulness_count s)) deduplicated
      in map (\<lambda>(idx, s). s\<lparr>sol_order := int idx\<rparr>) (enumerate 1 sorted_solutions))"

text \<open>
  The relation the deduplication is specified by: two texts differ only by case and by
  leading or trailing whitespace.
\<close>

definition same_text :: "string \<Rightarrow> string \<Rightarrow> bool" where
  "same_text a b =
     (\<exists>l1 r1 l2 r2 core1 core2.
        a = l1 @ core1 @ r1 \<and> b = l2 @ core2 @ r2 \<and>
        list_all isspace (l1 @ r1 @ l2 @ r2) \<and> lower core1 = lower core2)"

section \<open>Feedback ledger (simple_main.py, app/api_unmark_step_useful.py)\<close>

record store =
  feedback :: "SolutionFeedback list"
  knowledge :: "KnowledgeBase list"
  training :: "TrainingData list"

text \<open>The JSON object a ledger endpoint returns.\<close>

record response =
  success :: bool
  usefulness_count :: "int option"
  message :: "string option"

text \<open>Truth value of an \<open>Optional[int]\<close>: neither \<open>None\<close> nor zero.\<close>

definition truthy :: "int option \<Rightarrow> bool" where
  "truthy x = (case x of None \<Rightarrow> False | Some n \<Rightarrow> n \<noteq> 0)"

text \<open>The query for the row of an identity tuple; \<open>== None\<close> is \<open>IS NULL\<close>.\<close>

definition identity_row :: "string \<Rightarrow> int \<Rightarrow> int option \<Rightarrow> int option \<Rightarrow> int option \<Rightarrow> SolutionFeedback \<Rightarrow> bool" where
  "identity_row step_description step_order knowledge_base_id training_data_id rca_id fb =
     (fb_solution_description fb = step_description \<and>
      fb_solution_order fb = step_order \<and>
      fb_knowledge_base_id fb = knowledge_base_id \<and>
      fb_training_data_id fb = training_data_id \<and>
      fb_rca_id fb = rca_id)"

text \<open>The primary key an inserted row gets: one more than the largest in the table.\<close>

definition next_id :: "SolutionFeedback list \<Rightarrow> int" where
  "next_id rows = fold max (map fb_id rows) 0 + 1"

definition mark_source :: "int option \<Rightarrow> int option \<Rightarrow> store \<Rightarrow> store" where
  "mark_source knowledge_base_id training_data_id db =
     (if truthy knowledge_base_id then
        (case find (\<lambda>kb. Some (kb_id kb) = knowledge_base_id) (knowledge db) of
           None \<Rightarrow> db
         | Some kb \<Rightarrow>
             db\<lparr>knowledge := map (\<lambda>row. if kb_id row = kb_id kb
                   then row\<lparr>kb_usefulness_count := kb_usefulness_count row + 1\<rparr> else row)
                 (knowledge db)\<rparr>)
      else if truthy training_data_id then
        (case find (\<lambda>td. Some (td_id td) = training_data_id) (training db) of
           None \<Rightarrow> db
         | Some td \<Rightarrow>
             db\<lparr>training := map (\<lambda>row. if td_id row = td_id td
                   then row\<lparr>td_usefulness_count := Some (usefulness_int row + 1)\<rparr> else row)
                 (training db)\<rparr>)
      else db)"

definition mark_step_useful ::
    "int \<Rightarrow> store \<Rightarrow> int \<Rightarrow> string \<Rightarrow> int option \<Rightarrow> int option \<Rightarrow> int option \<Rightarrow>
     string option \<Rightarrow> string \<Rightarrow> response \<times> store" where
  "mark_step_useful now db step_order step_description knowledge_base_id training_data_id rca_id
       incident_description step_type =
     (let source_type =
            (if truthy knowledge_base_id then ''Knowledge Base''
             else if truthy training_data_id then ''Training Data''
             else if truthy rca_id then ''RCA History''
             else []);
          final_incident_description =
            (case incident_description of
               None \<Rightarrow> ''Unknown incident''
             | Some d \<Rightarrow> if strip d \<noteq> [] then strip d else ''Unknown incident'');
          existing_feedback =
            find (identity_row step_description step_order knowledge_base_id training_data_id rca_id)
              (feedback db)
      in case existing_feedback of
           Some existing \<Rightarrow>
             let updated = (\<lambda>row.
                   row\<lparr>fb_usefulness_count := fb_usefulness_count row + 1,
                       fb_marked_at := now,
                       fb_incident_description :=
                         (if final_incident_description \<noteq> ''Unknown incident''
                          then final_incident_description else fb_incident_description row)\<rparr>);
                 db1 = db\<lparr>feedback :=
                   map (\<lambda>row. if fb_id row = fb_id existing then updated row else row) (feedback db)\<rparr>
             in (\<lparr>success = True, usefulness_count = Some (fb_usefulness_count existing + 1),
                  message = Some ''Step marked as useful''\<rparr>,
                 mark_source knowledge_base_id training_data_id db1)
         | None \<Rightarrow>
             let new_feedback =
                   \<lparr>fb_id = next_id (feedback db),
                    fb_incident_description = final_incident_description,
                    fb_solution_description = step_description,
                    fb_solution_order = step_order,
                    fb_solution_type = step_type,
                    fb_source_type = source_type,
                    fb_knowledge_base_id = knowledge_base_id,
                    fb_training_data_id = training_data_id,
                    fb_rca_id = rca_id,
                    fb_usefulness_count = 1,
                    fb_marked_at = now\<rparr>;
                 db1 = db\<lparr>feedback := feedback db @ [new_feedback]\<rparr>
             in (\<lparr>success = True, usefulness_count = Some 1,
                  message = Some ''Step marked as useful''\<rparr>,
                 mark_source knowledge_base_id training_data_id db1))"

definition unmark_source :: "int option \<Rightarrow> int option \<Rightarrow> store \<Rightarrow> store" where
  "unmark_source knowledge_base_id training_data_id db =
     (if truthy knowledge_base_id then
        (case find (\<lambda>kb. Some (kb_id kb) = knowledge_base_id) (knowledge db) of
           None \<Rightarrow> db
         | Some kb \<Rightarrow>
             if kb_usefulness_count kb > 0
             then db\<lparr>knowledge := map (\<lambda>row. if kb_id row = kb_id kb
                    then row\<lparr>kb_usefulness_count := kb_usefulness_count row - 1\<rparr> else row)
                  (knowledge db)\<rparr>
             else db)
      else if truthy training_data_id then
        (case find (\<lambda>td. Some (td_id td) = training_data_id) (training db) of
           None \<Rightarrow> db
         | Some td \<Rightarrow>
             (case td_usefulness_count td of
                None \<Rightarrow> db
              | Some u \<Rightarrow>
                  if u > 0
                  then db\<lparr>training := map (\<lambda>row. if td_id row = td_id td
                         then row\<lparr>td_usefulness_count := Some (u - 1)\<rparr> else row)
                       (training db)\<rparr>
                  else db))
      else db)"

definition unmark_step_useful ::
    "int \<Rightarrow> store \<Rightarrow> int \<Rightarrow> string \<Rightarrow> int option \<Rightarrow> int option \<Rightarrow> int option \<Rightarrow> response \<times> store" where
  "unmark_step_useful now db step_order step_description knowledge_base_id training_data_id rca_id =
     (case find (identity_row step_description step_order knowledge_base_id training_data_id rca_id)
             (feedback db) of
        None \<Rightarrow>
          (\<lparr>success = False, usefulness_count = None,
            message = Some ''No feedback found to remove.''\<rparr>, db)
      | Some fb \<Rightarrow>
          let db1 =
                (if fb_usefulness_count fb > 1
                 then db\<lparr>feedback := map (\<lambda>row. if fb_id row = fb_id fb
                        then row\<lparr>fb_usefulness_count := fb_usefulness_count row - 1,
                                 fb_marked_at := now\<rparr>
                        else row) (feedback db)\<rparr>
                 else db\<lparr>feedback := filter (\<lambda>row. fb_id row \<noteq> fb_id fb) (feedback db)\<rparr>)
          in (\<lparr>success = True, usefulness_count = None,
               message = Some ''Step unmarked as useful.''\<rparr>,
              unmark_source knowledge_base_id training_data_id db1))"

section \<open>Operational correlator (app/services/operational_data_service.py)\<close>

text \<open>
  The text of an f-string is kept as the list of its pieces: literal text and the values
  formatted into it (\<open>Num\<close> an integer, \<open>Fixed1\<close> a float printed with \<open>:.1f\<close>,
  \<open>Iso\<close> the \<open>isoformat()\<close> of a datetime).
\<close>

datatype frag = Lit string | Num int | Fixed1 real | Iso int

text \<open>\<open>timedelta.total_seconds()\<close> of a difference given in microseconds.\<close>

definition total_seconds :: "int \<Rightarrow> real" where
  "total_seconds d = real_of_int d / 1000000"

text \<open>
  \<open>str.upper\<close> on the letters whose capital is again one code point below 256 (the
  capitals of the code points 181, 223 and 255 are not, and they stay as they are here).
\<close>

definition upper_char :: "char \<Rightarrow> char" where
  "upper_char c =
     (let n = code c
      in if (97 \<le> n \<and> n \<le> 122) \<or> (224 \<le> n \<and> n \<le> 254 \<and> n \<noteq> 247) then char_of (n - 32) else c)"

definition upper :: "string \<Rightarrow> string" where
  "upper s = map upper_char s"

subsection \<open>Container duplication\<close>

datatype ContainerStatusEnum = IN_YARD | ON_VESSEL | GATE_OUT | GATE_IN | DISCHARGED | LOADED | TRANSHIP

fun status_value :: "ContainerStatusEnum \<Rightarrow> string" where
  "status_value IN_YARD = ''IN_YARD''"
| "status_value ON_VESSEL = ''ON_VESSEL''"
| "status_value GATE_OUT = ''GATE_OUT''"
| "status_value GATE_IN = ''GATE_IN''"
| "status_value DISCHARGED = ''DISCHARGED''"
| "status_value LOADED = ''LOADED''"
| "status_value TRANSHIP = ''TRANSHIP''"

record Container =
  c_cntr_no :: string
  c_status :: ContainerStatusEnum
  c_origin_port :: string
  c_destination_port :: string
  c_vessel_id :: "int option"
  c_created_at :: int

text \<open>All versions of a container, newest first.\<close>

definition get_container_by_number :: "Container list \<Rightarrow> string \<Rightarrow> Container list" where
  "get_container_by_number ops_db cntr_no =
     sort_key (\<lambda>c. - c_created_at c) (filter (\<lambda>c. c_cntr_no c = upper cntr_no) ops_db)"

record dup_record =
  rec_created_at :: int
  rec_status :: string
  rec_vessel_id :: "int option"
  rec_origin :: string
  rec_destination :: string

text \<open>
  The two shapes of the dictionary \<open>detect_container_duplicates\<close> returns:
  \<open>{has_duplicates: False, count}\<close>, and \<open>{has_duplicates: True, count, records,
  identical_data, issue_type}\<close> with \<open>root_cause\<close> when it was set.
\<close>

datatype dup_analysis =
    No_Duplicates nat
  | Duplicates nat "dup_record list" bool string "frag list option"

fun has_duplicates :: "dup_analysis \<Rightarrow> bool" where
  "has_duplicates (No_Duplicates n) = False"
| "has_duplicates (Duplicates n records identical_data ty root_cause) = True"

fun issue_type :: "dup_analysis \<Rightarrow> string option" where
  "issue_type (No_Duplicates n) = None"
| "issue_type (Duplicates n records identical_data ty root_cause) = Some ty"

fun dup_root_cause :: "dup_analysis \<Rightarrow> frag list option" where
  "dup_root_cause (No_Duplicates n) = None"
| "dup_root_cause (Duplicates n records identical_data ty root_cause) = root_cause"

text \<open>The test of the comparison loop: a row differs from the first one.\<close>

definition differs :: "Container \<Rightarrow> Container \<Rightarrow> bool" where
  "differs c first =
     (c_status c \<noteq> c_status first \<or> c_vessel_id c \<noteq> c_vessel_id first \<or>
      c_origin_port c \<noteq> c_origin_port first \<or> c_destination_port c \<noteq> c_destination_port first)"

definition detect_container_duplicates :: "Container list \<Rightarrow> string \<Rightarrow> dup_analysis" where
  "detect_container_duplicates ops_db cntr_no =
     (let containers = get_container_by_number ops_db cntr_no
      in if length containers \<le> 1 then No_Duplicates (length containers)
         else
           let records = map (\<lambda>c.
                   \<lparr>rec_created_at = c_created_at c, rec_status = status_value (c_status c),
                    rec_vessel_id = c_vessel_id c, rec_origin = c_origin_port c,
                    rec_destination = c_destination_port c\<rparr>) containers;
               first = hd containers
           in if list_ex (\<lambda>c. differs c first) (tl containers)
              then Duplicates (length containers) records False ''data_inconsistency'' None
              else
                let time_diff =
                      total_seconds (c_created_at (hd containers) - c_created_at (last containers))
                in if time_diff < 5
                   then Duplicates (length containers) records True ''rapid_duplicate_insert''
                          (Some [Lit ''Multiple inserts within '', Fixed1 time_diff,
                                 Lit ''s - likely race condition or double-submit''])
                   else Duplicates (length containers) records True ''composite_pk_versioning'' None)"

subsection \<open>Vessel advisory conflict\<close>

record VesselAdvice =
  va_vessel_advice_no :: int
  va_system_vessel_name :: string
  va_effective_start_datetime :: int
  va_effective_end_datetime :: "int option"

record BerthApplication =
  ba_application_no :: int
  ba_vessel_advice_no :: int

definition get_vessel_advice_by_name :: "VesselAdvice list \<Rightarrow> string \<Rightarrow> VesselAdvice list" where
  "get_vessel_advice_by_name ops_db system_vessel_name =
     sort_key (\<lambda>a. - va_effective_start_datetime a)
       (filter (\<lambda>a. va_system_vessel_name a = system_vessel_name) ops_db)"

text \<open>
  The four dictionaries \<open>detect_vessel_advice_conflict\<close> returns, in the order of its
  \<open>return\<close> statements:
  \<^item> \<open>No_Advice\<close>: \<open>{has_conflict: False}\<close>;
  \<^item> \<open>No_Active historical_count message\<close>;
  \<^item> \<open>Multiple_Active active_count root_cause advices\<close>, each advice an id and a start;
  \<^item> \<open>Single_Active active_advice_no active_since root_cause solution berth_applications\<close>.
\<close>

datatype advice_conflict =
    No_Advice
  | No_Active nat "frag list"
  | Multiple_Active nat string "(int \<times> int) list"
  | Single_Active int int "frag list" string nat

fun has_conflict :: "advice_conflict \<Rightarrow> bool" where
  "has_conflict No_Advice = False"
| "has_conflict (No_Active historical_count msg) = False"
| "has_conflict (Multiple_Active active_count root_cause advices) = True"
| "has_conflict (Single_Active advice_no since root_cause solution berths) = True"

fun error_type :: "advice_conflict \<Rightarrow> string option" where
  "error_type No_Advice = None"
| "error_type (No_Active historical_count msg) = None"
| "error_type (Multiple_Active active_count root_cause advices) = Some ''MULTIPLE_ACTIVE''"
| "error_type (Single_Active advice_no since root_cause solution berths) = Some ''VESSEL_ERR_4''"

fun active_advice_no :: "advice_conflict \<Rightarrow> int option" where
  "active_advice_no (Single_Active advice_no since root_cause solution berths) = Some advice_no"
| "active_advice_no other = None"

fun advices_ids :: "advice_conflict \<Rightarrow> int list" where
  "advices_ids (Multiple_Active active_count root_cause advices) = map fst advices"
| "advices_ids other = []"

definition detect_vessel_advice_conflict ::
    "VesselAdvice list \<Rightarrow> BerthApplication list \<Rightarrow> string \<Rightarrow> advice_conflict" where
  "detect_vessel_advice_conflict ops_db berths vessel_name =
     (let advices = get_vessel_advice_by_name ops_db vessel_name
      in if advices = [] then No_Advice
         else
           let active = filter (\<lambda>a. va_effective_end_datetime a = None) advices
           in if active = []
              then No_Active (length advices)
                     [Lit ''No active advice found, '', Num (int (length advices)),
                      Lit '' historical record(s) exist'']
              else if length active > 1
              then Multiple_Active (length active)
                     ''Data integrity violation - multiple active advices found (should be prevented by unique constraint)''
                     (map (\<lambda>a. (va_vessel_advice_no a, va_effective_start_datetime a)) active)
              else
                let active_advice = hd active
                in Single_Active (va_vessel_advice_no active_advice)
                     (va_effective_start_datetime active_advice)
                     [Lit (''Cannot create new advice - vessel '' @ [CHR 0x27]), Lit vessel_name,
                      Lit (CHR 0x27 # '' already has active advice #''),
                      Num (va_vessel_advice_no active_advice)]
                     ''Expire the existing advice by setting effective_end_datetime before creating new advice''
                     (length (filter (\<lambda>b. ba_vessel_advice_no b = va_vessel_advice_no active_advice)
                                berths)))"

subsection \<open>API event cascades\<close>

record APIEvent =
  ev_api_id :: int
  ev_event_type :: string
  ev_source_system :: string
  ev_http_status :: "int option"
  ev_event_ts :: int

record event_summary =
  es_api_id :: int
  es_event_type :: string
  es_source_system :: string
  es_http_status :: "int option"
  es_timestamp :: int

record cascade =
  cas_start_time :: int
  cas_end_time :: int
  cas_duration_seconds :: real
  cas_event_count :: nat
  cas_events :: "event_summary list"

definition summary :: "APIEvent \<Rightarrow> event_summary" where
  "summary e =
     \<lparr>es_api_id = ev_api_id e, es_event_type = ev_event_type e,
      es_source_system = ev_source_system e, es_http_status = ev_http_status e,
      es_timestamp = ev_event_ts e\<rparr>"

text \<open>The dictionary appended for a group; the group is never empty where it is built.\<close>

definition cascade_of :: "APIEvent list \<Rightarrow> cascade" where
  "cascade_of current_cascade =
     \<lparr>cas_start_time = ev_event_ts (hd current_cascade),
      cas_end_time = ev_event_ts (last current_cascade),
      cas_duration_seconds =
        total_seconds (ev_event_ts (last current_cascade) - ev_event_ts (hd current_cascade)),
      cas_event_count = length current_cascade,
      cas_events = map summary current_cascade\<rparr>"

text \<open>
  The \<open>for\<close> loop over \<open>events[1:]\<close>, with \<open>current_cascade\<close> and \<open>cascades\<close> as
  they stand; at the end of the list the last group is flushed.
\<close>

fun cascade_loop :: "int \<Rightarrow> APIEvent list \<Rightarrow> cascade list \<Rightarrow> APIEvent list \<Rightarrow> cascade list" where
  "cascade_loop window current_cascade cascades [] =
     (if length current_cascade \<ge> 2 then cascades @ [cascade_of current_cascade] else cascades)"
| "cascade_loop window current_cascade cascades (e # es) =
     (let time_diff = total_seconds (ev_event_ts e - ev_event_ts (last current_cascade))
      in if time_diff \<le> real_of_int window
         then cascade_loop window (current_cascade @ [e]) cascades es
         else cascade_loop window [e]
                (if length current_cascade \<ge> 2 then cascades @ [cascade_of current_cascade]
                 else cascades) es)"

text \<open>The 4xx/5xx events of the time range, oldest first.\<close>

definition error_events :: "APIEvent list \<Rightarrow> int \<Rightarrow> int \<Rightarrow> APIEvent list" where
  "error_events ops_db start end =
     sort_key ev_event_ts
       (filter (\<lambda>e. start \<le> ev_event_ts e \<and> ev_event_ts e \<le> end \<and>
                     (case ev_http_status e of None \<Rightarrow> False | Some st \<Rightarrow> st \<ge> 400)) ops_db)"

definition detect_api_event_cascade :: "APIEvent list \<Rightarrow> int \<Rightarrow> int \<Rightarrow> int \<Rightarrow> cascade list" where
  "detect_api_event_cascade ops_db start end cascade_window_seconds =
     (case error_events ops_db start end of
        [] \<Rightarrow> []
      | e # es \<Rightarrow> cascade_loop cascade_window_seconds [e] [] es)"

text \<open>
  The grouping as it is specified: the event list cut into its maximal runs in which
  each event follows its predecessor by at most the window.
\<close>

fun cascade_groups :: "int \<Rightarrow> APIEvent list \<Rightarrow> APIEvent list list" where
  "cascade_groups window [] = []"
| "cascade_groups window [e] = [[e]]"
| "cascade_groups window (e # e' # es) =
     (if total_seconds (ev_event_ts e' - ev_event_ts e) \<le> real_of_int window
      then (case cascade_groups window (e' # es) of
              [] \<Rightarrow> [[e]]
            | g # gs \<Rightarrow> (e # g) # gs)
      else [e] # cascade_groups window (e' # es))"

section \<open>Error-fingerprint extractor (app/services/incident_analyzer.py)\<close>

subsection \<open>Regular expressions\<close>

text \<open>
  The patterns use literals, \<open>.\<close>, \<open>\w\<close>, \<open>\s\<close>, one character class, concatenation,
  alternation, \<open>*\<close>, \<open>+\<close> and \<open>?\<close>. Whether \<open>re.search\<close> finds a match does not depend
  on the order in which the backtracking matcher tries alternatives, so the model decides
  it with derivatives.
\<close>

definition isalnum :: "char \<Rightarrow> bool" where
  "isalnum c =
     (let n = code c
      in (48 \<le> n \<and> n \<le> 57) \<or> (65 \<le> n \<and> n \<le> 90) \<or> (97 \<le> n \<and> n \<le> 122) \<or>
         n = 170 \<or> n = 178 \<or> n = 179 \<or> n = 181 \<or> n = 185 \<or> n = 186 \<or>
         (188 \<le> n \<and> n \<le> 190) \<or> (192 \<le> n \<and> n \<le> 214) \<or> (216 \<le> n \<and> n \<le> 246) \<or>
         248 \<le> n)"

text \<open>The class \<open>\w\<close>: the alphanumeric characters and the underscore.\<close>

definition is_word :: "char \<Rightarrow> bool" where
  "is_word c = (isalnum c \<or> c = CHR ''_'')"

datatype cls = Ch char | Dot | Word | Space | Quote

fun cls_match :: "cls \<Rightarrow> char \<Rightarrow> bool" where
  "cls_match (Ch a) c = (c = a)"
| "cls_match Dot c = (c \<noteq> CHR 0x0A)"
| "cls_match Word c = is_word c"
| "cls_match Space c = isspace c"
| "cls_match Quote c = (c = CHR 0x27 \<or> c = CHR 0x22)"

datatype rx = Zero | One | Sym cls | Seq rx rx | Alt rx rx | Star rx

fun nullable :: "rx \<Rightarrow> bool" where
  "nullable Zero = False"
| "nullable One = True"
| "nullable (Sym k) = False"
| "nullable (Seq r s) = (nullable r \<and> nullable s)"
| "nullable (Alt r s) = (nullable r \<or> nullable s)"
| "nullable (Star r) = True"

text \<open>Concatenation and alternation that drop the empty language as they build.\<close>

fun seq :: "rx \<Rightarrow> rx \<Rightarrow> rx" where
  "seq Zero s = Zero"
| "seq One s = s"
| "seq r s = Seq r s"

fun alt :: "rx \<Rightarrow> rx \<Rightarrow> rx" where
  "alt Zero s = s"
| "alt r Zero = r"
| "alt r s = Alt r s"

fun deriv :: "char \<Rightarrow> rx \<Rightarrow> rx" where
  "deriv c Zero = Zero"
| "deriv c One = Zero"
| "deriv c (Sym k) = (if cls_match k c then One else Zero)"
| "deriv c (Seq r s) =
     (if nullable r then alt (seq (deriv c r) s) (deriv c s) else seq (deriv c r) s)"
| "deriv c (Alt r s) = alt (deriv c r) (deriv c s)"
| "deriv c (Star r) = seq (deriv c r) (Star r)"

text \<open>Some prefix of the string matches.\<close>

fun match_prefix :: "rx \<Rightarrow> string \<Rightarrow> bool" where
  "match_prefix r [] = nullable r"
| "match_prefix r (c # cs) = (nullable r \<or> (r \<noteq> Zero \<and> match_prefix (deriv c r) cs))"

text \<open>\<open>re.search(pat, s)\<close> finds a match: some substring matches.\<close>

fun re_search :: "rx \<Rightarrow> string \<Rightarrow> bool" where
  "re_search r [] = nullable r"
| "re_search r (c # cs) = (match_prefix r (c # cs) \<or> re_search r cs)"

text \<open>The language of an expression, which the matcher is measured against.\<close>

inductive_set star :: "string set \<Rightarrow> string set" for A :: "string set" where
  star_empty: "[] \<in> star A"
| star_step: "u \<in> A \<Longrightarrow> v \<in> star A \<Longrightarrow> u @ v \<in> star A"

fun lang :: "rx \<Rightarrow> string set" where
  "lang Zero = {}"
| "lang One = {[]}"
| "lang (Sym k) = {[c] | c. cls_match k c}"
| "lang (Seq r s) = {u @ v | u v. u \<in> lang r \<and> v \<in> lang s}"
| "lang (Alt r s) = lang r \<union> lang s"
| "lang (Star r) = star (lang r)"

subsection \<open>The rule list\<close>

definition lit :: "string \<Rightarrow> rx" where
  "lit s = foldr (\<lambda>c r. Seq (Sym (Ch c)) r) s One"

definition cat :: "rx list \<Rightarrow> rx" where
  "cat rs = foldr Seq rs One"

definition alts :: "rx list \<Rightarrow> rx" where
  "alts rs = foldr Alt rs Zero"

definition plus :: "rx \<Rightarrow> rx" where
  "plus r = Seq r (Star r)"

definition opt :: "rx \<Rightarrow> rx" where
  "opt r = Alt r One"

text \<open>\<open>a.*b\<close> and \<open>a.*b.*c\<close>\<close>

definition gap2 :: "string \<Rightarrow> string \<Rightarrow> rx" where
  "gap2 a b = cat [lit a, Star (Sym Dot), lit b]"

definition gap3 :: "string \<Rightarrow> string \<Rightarrow> string \<Rightarrow> rx" where
  "gap3 a b c = cat [lit a, Star (Sym Dot), lit b, Star (Sym Dot), lit c]"

definition patterns :: "(rx \<times> string) list" where
  "patterns =
     [(cat [lit ''unexpected qualifier'', Star (Sym Dot), Sym Quote, plus (Sym Word), Sym Quote,
            plus (Sym Space), lit ''in'', plus (Sym Space), plus (Sym Word), plus (Sym Space),
            lit ''segment''], ''edifact_unexpected_qualifier''),
      (alts [gap3 ''coarri'' ''container'' ''translation'', gap3 ''container'' ''coarri'' ''error''],
         ''coarri_container_error''),
      (alts [gap2 ''edifact'' ''parse'', gap2 ''edifact'' ''format'', gap2 ''edifact'' ''message''],
         ''edifact_parsing_error''),
      (alts [gap2 ''codeco'' ''error'', gap2 ''codeco'' ''reject''], ''codeco_error''),
      (alts [gap2 ''coprar'' ''error'', gap2 ''coprar'' ''reject''], ''coprar_error''),
      (alts [gap2 ''baplie'' ''error'', gap2 ''baplie'' ''reject''], ''baplie_error''),
      (alts [gap3 ''edi'' ''message'' ''stuck'', gap3 ''edi'' ''stuck'' ''error''], ''edi_message_stuck''),
      (alts [gap2 ''segment'' ''error'', gap2 ''segment'' ''reject'', gap2 ''segment'' ''invalid''],
         ''edi_segment_error''),
      (cat [lit ''time'', opt (lit '' ''), lit ''zone drift''], ''timezone_drift''),
      (alts [gap2 ''dlq'' ''spike'', gap2 ''spike'' ''dlq'', lit ''dlq messages''], ''dlq_spike''),
      (alts [lit ''vessel_err'', lit ''vessel error''], ''vessel_err''),
      (alts [gap2 ''duplicate'' ''container'', gap2 ''container'' ''duplication''],
         ''container_duplication''),
      (alts [gap2 ''cntr'' ''duplicate'', gap2 ''cntr'' ''error''], ''container_reference_error''),
      (alts [gap2 ''booking'' ''duplicate'', gap2 ''booking'' ''conflict''], ''booking_conflict''),
      (lit ''timeout'', ''timeout''),
      (lit ''deadlock'', ''deadlock''),
      (lit ''connection refused'', ''connection_refused''),
      (lit ''invalid format'', ''invalid_format''),
      (lit ''missing field'', ''missing_field''),
      (alts [gap2 ''auth'' ''fail'', lit ''authentication failed''], ''auth_failed''),
      (lit ''permission denied'', ''permission_denied''),
      (lit ''file not found'', ''file_not_found''),
      (lit ''memory leak'', ''memory_leak''),
      (lit ''high cpu'', ''high_cpu''),
      (lit ''disk full'', ''disk_full''),
      (lit ''network unreachable'', ''network_unreachable''),
      (lit ''service unavailable'', ''service_unavailable''),
      (lit ''unknown error'', ''unknown_error'')]"

text \<open>
  \<open>re.findall(r"\w+", s)\<close>: the non-overlapping matches from left to right, each as
  long as possible, are the maximal runs of word characters.
\<close>

definition findall_words :: "string \<Rightarrow> string list" where
  "findall_words s = runs_aux is_word [] s"

text \<open>\<open>sep.join(ws)\<close>\<close>

fun join :: "string \<Rightarrow> string list \<Rightarrow> string" where
  "join sep [] = []"
| "join sep [w] = w"
| "join sep (w # ws) = w @ sep @ join sep ws"

definition extract_error_type :: "string \<Rightarrow> string" where
  "extract_error_type description =
     (let desc_lower = lower description
      in case find (\<lambda>(pat, etype). re_search pat desc_lower) patterns of
           Some (pat, etype) \<Rightarrow> etype
         | None \<Rightarrow>
             let words = findall_words desc_lower
             in if words \<noteq> [] then join ''_'' (slice_to 2 words) else ''unknown_error'')"

section \<open>Root-cause hypothesis builder (simple_main.py, analyze_root_cause)\<close>

record RootCauseHypothesis =
  h_description :: "frag list"
  h_confidence :: real
  h_evidence :: "frag list list"
  h_contributing_factors :: "frag list list"

text \<open>
  The findings of \<open>correlate_incident\<close> that the builder reads. A key that is absent
  from \<open>findings\<close> is the empty list here: the loop over it does nothing either way.
\<close>

record container_finding =
  cf_cntr_no :: string
  cf_duplication_analysis :: dup_analysis

record vessel_finding =
  vf_vessel_name :: string
  vf_advice_conflict :: advice_conflict

record edi_finding =
  edi_type :: string
  edi_message_ref :: string
  edi_error_text :: "string option"
  edi_root_cause :: "string option"
  edi_solution :: "string option"

record findings =
  f_containers :: "container_finding list"
  f_vessels :: "vessel_finding list"
  f_edi_messages :: "edi_finding list"

text \<open>The hypothesis of the most similar training case, confidence 0.85.\<close>

definition similarity_hypothesis ::
    "TrainingData \<Rightarrow> nat \<Rightarrow> solution list \<Rightarrow> nat \<Rightarrow> RootCauseHypothesis" where
  "similarity_hypothesis most_similar n_similar recommended_solutions_data n_sops =
     (let primary_description =
            (if td_expected_root_cause most_similar \<noteq> [] then td_expected_root_cause most_similar
             else ''Root cause identified from similar incidents'');
          solution_context =
            (case recommended_solutions_data of
               [] \<Rightarrow> []
             | top_solution # rest \<Rightarrow>
                 [Lit '' Recommended solution: '', Lit (take 100 (sol_description top_solution)),
                  Lit ''...''])
      in \<lparr>h_description = Lit primary_description # solution_context,
          h_confidence = 85 / 100,
          h_evidence =
            [[Lit ''Similar incident found: '', Lit (take 150 (td_incident_description most_similar)),
              Lit ''...''],
             [Lit ''Category: '', Lit (td_category most_similar)],
             [Lit ''Based on '', Num (int n_similar), Lit '' similar past incidents''],
             [Lit ''Enhanced with '', Num (int (length recommended_solutions_data)),
              Lit '' AI-matched solutions'']],
          h_contributing_factors =
            [[Lit (if td_expected_root_cause most_similar \<noteq> []
                   then take 200 (td_expected_root_cause most_similar)
                   else ''See similar incidents for details'')],
             [Lit ''SOP references: '', Num (int n_sops), Lit '' relevant procedures found'']]\<rparr>)"

definition placeholder_hypothesis :: RootCauseHypothesis where
  "placeholder_hypothesis =
     \<lparr>h_description = [Lit ''Unable to determine root cause - insufficient data''],
      h_confidence = 0,
      h_evidence = [[Lit ''No similar incidents found''], [Lit ''No log files uploaded'']],
      h_contributing_factors = [[Lit ''Please provide more details or upload log files'']]\<rparr>"

fun container_hypothesis :: "container_finding \<Rightarrow> RootCauseHypothesis option" where
  "container_hypothesis container =
     (case cf_duplication_analysis container of
        No_Duplicates n \<Rightarrow> None
      | Duplicates n records identical_data ty root_cause \<Rightarrow>
          Some \<lparr>h_description =
                  [Lit ''Container '', Lit (cf_cntr_no container), Lit '' duplication detected: '',
                   Lit ty, Lit ''. ''] @ (case root_cause of None \<Rightarrow> [] | Some rc \<Rightarrow> rc),
                h_confidence = 95 / 100,
                h_evidence =
                  [[Lit ''Database shows '', Num (int n), Lit '' records for '',
                    Lit (cf_cntr_no container)]],
                h_contributing_factors =
                  [[Lit ''Composite primary key (cntr_no, created_at)''],
                   [Lit ''Possible race condition or double-submit'']]\<rparr>)"

fun vessel_hypothesis :: "vessel_finding \<Rightarrow> RootCauseHypothesis option" where
  "vessel_hypothesis vessel =
     (case vf_advice_conflict vessel of
        Single_Active advice_no since root_cause sol berths \<Rightarrow>
          Some \<lparr>h_description = Lit ''VESSEL_ERR_4: '' # root_cause,
                h_confidence = 98 / 100,
                h_evidence =
                  [[Lit ''Active vessel advice #'', Num advice_no, Lit '' exists since '', Iso since],
                   [Lit ''Unique constraint prevents multiple active advices for same vessel name'']],
                h_contributing_factors =
                  [[Lit ''Vessel advice lifecycle not properly managed''],
                   [Lit ''Solution: '', Lit sol]]\<rparr>
      | other \<Rightarrow> None)"

fun edi_hypothesis :: "edi_finding \<Rightarrow> RootCauseHypothesis option" where
  "edi_hypothesis edi =
     (case edi_root_cause edi of
        None \<Rightarrow> None
      | Some root_cause \<Rightarrow>
          if root_cause = [] then None
          else
            Some \<lparr>h_description = [Lit ''EDI '', Lit (edi_type edi), Lit '' error: '', Lit root_cause],
                  h_confidence = 90 / 100,
                  h_evidence =
                    [[Lit ''Message '', Lit (edi_message_ref edi), Lit '': '',
                      Lit (case edi_error_text edi of None \<Rightarrow> ''None'' | Some t \<Rightarrow> t)]],
                  h_contributing_factors =
                    [[Lit (case edi_solution edi of
                             None \<Rightarrow> ''Review EDI message structure'' | Some s \<Rightarrow> s)]]\<rparr>)"

text \<open>
  One loop of \<open>hypotheses.insert(0, ...)\<close>: every finding that yields a hypothesis puts
  it in front of the list as it stands.
\<close>

definition insert_front :: "('a \<Rightarrow> RootCauseHypothesis option) \<Rightarrow> 'a list \<Rightarrow>
    RootCauseHypothesis list \<Rightarrow> RootCauseHypothesis list" where
  "insert_front mk xs hypotheses =
     fold (\<lambda>x hs. case mk x of None \<Rightarrow> hs | Some h \<Rightarrow> h # hs) xs hypotheses"

text \<open>
  \<open>log_hypotheses\<close> is what the log analyzer returned (empty without logs);
  \<open>ops_correlation\<close> is \<open>None\<close> when there is no correlation result with findings.
\<close>

definition build_hypotheses ::
    "TrainingData list \<Rightarrow> solution list \<Rightarrow> nat \<Rightarrow> RootCauseHypothesis list \<Rightarrow> findings option \<Rightarrow>
     RootCauseHypothesis list" where
  "build_hypotheses similar_incidents recommended_solutions_data n_sops log_hypotheses ops_correlation =
     (let hypotheses1 =
            (case similar_incidents of
               [] \<Rightarrow> []
             | most_similar # rest \<Rightarrow>
                 [similarity_hypothesis most_similar (length similar_incidents)
                    recommended_solutions_data n_sops]);
          hypotheses2 = hypotheses1 @ log_hypotheses;
          hypotheses3 = (case hypotheses2 of [] \<Rightarrow> [placeholder_hypothesis] | h # hs \<Rightarrow> hypotheses2)
      in case ops_correlation of
           None \<Rightarrow> hypotheses3
         | Some findings \<Rightarrow>
             insert_front edi_hypothesis (f_edi_messages findings)
               (insert_front vessel_hypothesis (f_vessels findings)
                  (insert_front container_hypothesis (f_containers findings) hypotheses3)))"

section \<open>Specification-side notions and example data\<close>

text \<open>The score a retrieval sorts by, and the documents that pass its threshold.\<close>

definition combined_similarity :: "string \<Rightarrow> TrainingData \<Rightarrow> float" where
  "combined_similarity query e =
     fadd (calculate_similarity e query) (fmul (float_of_int (usefulness_int e)) (fl (5 / 100)))"

definition eligible_examples :: "TrainingData list \<Rightarrow> string \<Rightarrow> TrainingData list" where
  "eligible_examples db query =
     filter (\<lambda>e. td_is_validated e = 1 \<and> calculate_similarity e query > fl (1 / 10)) db"

definition combined_relevance :: "int \<Rightarrow> string \<Rightarrow> KnowledgeBase \<Rightarrow> float" where
  "combined_relevance now query e =
     fadd (calculate_relevance now e query)
       (fmul (float_of_int (kb_usefulness_count e)) (fl (5 / 100)))"

definition eligible_knowledge :: "int \<Rightarrow> KnowledgeBase list \<Rightarrow> string \<Rightarrow> KnowledgeBase list" where
  "eligible_knowledge now db query =
     filter (\<lambda>e. kb_status e = ''Active'' \<and> calculate_relevance now e query > fl (1 / 10)) db"

text \<open>Rows used as concrete inputs.\<close>

definition example_case :: "int \<Rightarrow> string \<Rightarrow> int option \<Rightarrow> TrainingData" where
  "example_case i description u =
     \<lparr>td_id = i, td_incident_description = description, td_expected_root_cause = [],
      td_category = ''edi'', td_is_validated = 1, td_usefulness_count = u\<rparr>"

definition example_entry :: "int \<Rightarrow> string \<Rightarrow> int \<Rightarrow> KnowledgeBase" where
  "example_entry i title u =
     \<lparr>kb_id = i, kb_title = title, kb_content = ''see manual'', kb_keywords = [], kb_priority = 1,
      kb_status = ''Active'', kb_view_count = 0, kb_usefulness_count = u, kb_last_used = None\<rparr>"

text \<open>
  The enriched candidates before deduplication (\<open>recommended_solutions_data\<close> as the
  first loop leaves it), the key the deduplication compares, the renumbering loop, a
  solution without its order index, and the order the final sort is specified by.
\<close>

definition candidate_solutions :: "SolutionFeedback list \<Rightarrow> TrainingData list \<Rightarrow> solution list" where
  "candidate_solutions feedback_table top_training =
     map (\<lambda>(idx, match).
            solution_obj (filter (\<lambda>fb. fb_usefulness_count fb > 0) feedback_table) idx match)
       (enumerate 1 top_training)"

definition normalized :: "solution \<Rightarrow> string" where
  "normalized s = strip (lower (sol_description s))"

definition renumber :: "nat \<Rightarrow> solution list \<Rightarrow> solution list" where
  "renumber n ss = map (\<lambda>(idx, s). s\<lparr>sol_order := int idx\<rparr>) (enumerate n ss)"

definition erase_order :: "solution \<Rightarrow> solution" where
  "erase_order s = s\<lparr>sol_order := 0\<rparr>"

definition verified_first :: "solution \<Rightarrow> solution \<Rightarrow> bool" where
  "verified_first a b =
     ((sol_user_verified a \<or> \<not> sol_user_verified b) \<and>
      (sol_user_verified a = sol_user_verified b \<longrightarrow>
         sol_usefulness_count b \<le> sol_usefulness_count a))"

definition example_feedback :: "int \<Rightarrow> string \<Rightarrow> int \<Rightarrow> SolutionFeedback" where
  "example_feedback i description n =
     \<lparr>fb_id = i, fb_incident_description = ''Unknown incident'',
      fb_solution_description = description, fb_solution_order = 1,
      fb_solution_type = ''Resolution'', fb_source_type = [], fb_knowledge_base_id = None,
      fb_training_data_id = None, fb_rca_id = None, fb_usefulness_count = n, fb_marked_at = 0\<rparr>"

text \<open>
  Marking one identity tuple once per element of \<open>calls\<close>; a call brings its clock
  reading, its incident description and its step type.
\<close>

definition mark_many ::
    "store \<Rightarrow> int \<Rightarrow> string \<Rightarrow> int option \<Rightarrow> int option \<Rightarrow> int option \<Rightarrow>
     (int \<times> string option \<times> string) list \<Rightarrow> store" where
  "mark_many db step_order step_description knowledge_base_id training_data_id rca_id calls =
     fold (\<lambda>(now, incident_description, step_type) s.
             snd (mark_step_useful now s step_order step_description knowledge_base_id
                    training_data_id rca_id incident_description step_type))
       calls db"

text \<open>A store with one knowledge entry and no feedback, and three calls.\<close>

definition example_store :: store where
  "example_store = \<lparr>feedback = [], knowledge = [example_entry 7 ''Gate service'' 0], training = []\<rparr>"

definition example_calls :: "(int \<times> string option \<times> string) list" where
  "example_calls =
     [(10, Some '' Gate down '', ''Resolution''), (20, None, ''Resolution''),
      (30, Some [], ''Resolution'')]"

text \<open>The table holds the rows \<open>old\<close> and, last, the one row of the tuple, marked \<open>k\<close> times.\<close>

definition one_row ::
    "SolutionFeedback list \<Rightarrow> (SolutionFeedback \<Rightarrow> bool) \<Rightarrow> int \<Rightarrow> store \<Rightarrow> bool" where
  "one_row old P k s =
     (\<exists>r. feedback s = old @ [r] \<and> P r \<and> fb_usefulness_count r = k \<and>
          (\<forall>x \<in> set old. \<not> P x \<and> fb_id x \<noteq> fb_id r))"

text \<open>Two versions of one container, and two advisories of one vessel.\<close>

definition example_container :: "ContainerStatusEnum \<Rightarrow> int \<Rightarrow> Container" where
  "example_container status created =
     \<lparr>c_cntr_no = ''MSKU0000001'', c_status = status, c_origin_port = ''CNSHA'',
      c_destination_port = ''SGSIN'', c_vessel_id = Some 3, c_created_at = created\<rparr>"

definition example_advice :: "int \<Rightarrow> int \<Rightarrow> int option \<Rightarrow> VesselAdvice" where
  "example_advice advice_no start end =
     \<lparr>va_vessel_advice_no = advice_no, va_system_vessel_name = ''LION CITY 07'',
      va_effective_start_datetime = start, va_effective_end_datetime = end\<rparr>"

text \<open>The time from one event to a later one, in seconds.\<close>

definition gap_seconds :: "APIEvent \<Rightarrow> APIEvent \<Rightarrow> real" where
  "gap_seconds a b = total_seconds (ev_event_ts b - ev_event_ts a)"

text \<open>An API event with the given id, HTTP status and time in seconds.\<close>

definition example_event :: "int \<Rightarrow> int \<Rightarrow> int \<Rightarrow> APIEvent" where
  "example_event i status seconds =
     \<lparr>ev_api_id = i, ev_event_type = ''GATE_IN'', ev_source_system = ''TOS'',
      ev_http_status = Some status, ev_event_ts = seconds * 1000000\<rparr>"

text \<open>The current group put in front of the groups of the events that follow.\<close>

definition glue :: "'a list \<Rightarrow> 'a list list \<Rightarrow> 'a list list" where
  "glue pre gs = (case gs of [] \<Rightarrow> [] | g # gs' \<Rightarrow> (pre @ g) # gs')"

text \<open>
  Findings with one duplicated container, one vessel with a single active advisory and
  one EDI message with a root cause, built from the analyses above.
\<close>

definition example_findings :: findings where
  "example_findings =
     \<lparr>f_containers =
        [\<lparr>cf_cntr_no = ''MSKU0000001'',
          cf_duplication_analysis =
            detect_container_duplicates
              [example_container IN_YARD 1000000, example_container IN_YARD 3000000]
              ''MSKU0000001''\<rparr>],
      f_vessels =
        [\<lparr>vf_vessel_name = ''LION CITY 07'',
          vf_advice_conflict =
            detect_vessel_advice_conflict
              [example_advice 11 100 (Some 200), example_advice 12 300 None] [] ''LION CITY 07''\<rparr>],
      f_edi_messages =
        [\<lparr>edi_type = ''COARRI'', edi_message_ref = ''REF-COA-0001'',
          edi_error_text = Some ''Segment missing: EQD'',
          edi_root_cause = Some ''EDI message structure incomplete - required segment not found'',
          edi_solution = None\<rparr>]\<rparr>"

section \<open>Properties of the string primitives\<close>

lemma code_of_char [simp]: "code c = of_char c"
  by (simp add: code_def)

lemma substr_Nil [simp]: "substr [] b"
  by (cases b) simp_all

lemma lower_Nil [simp]: "lower [] = []"
  by (simp add: lower_def)

lemma runs_aux_Nil_iff: "runs_aux P cur s = [] \<longleftrightarrow> cur = [] \<and> (\<forall>c \<in> set s. \<not> P c)"
  by (induction s arbitrary: cur) auto

lemma split_Nil [simp]: "split [] = []"
  by (simp add: split_def)

section \<open>Properties of the float arithmetic\<close>

lemma bitlen_powi:
  assumes "0 < n"
  shows "2 powi (bitlen n - 1) \<le> (of_int n :: rat)" and "(of_int n :: rat) < 2 powi bitlen n"
proof -
  have b: "1 \<le> bitlen n"
    using assms by (simp add: bitlen_alt_def)
  have "2 ^ nat (bitlen n - 1) \<le> n" and "n < 2 ^ nat (bitlen n)"
    using bitlen_bounds [OF assms] by simp_all
  then have "(of_int (2 ^ nat (bitlen n - 1)) :: rat) \<le> of_int n"
    and "(of_int n :: rat) < of_int (2 ^ nat (bitlen n))"
    by (simp_all only: of_int_le_iff of_int_less_iff)
  then show "2 powi (bitlen n - 1) \<le> (of_int n :: rat)" and "(of_int n :: rat) < 2 powi bitlen n"
    using b by (simp_all add: power_int_def)
qed

lemma ilog2_bounds:
  assumes "0 < x"
  shows "2 powi ilog2 x \<le> x \<and> x < 2 powi (ilog2 x + 1)"
proof -
  obtain p q where pq: "quotient_of x = (p, q)"
    by (cases "quotient_of x")
  then have q: "0 < q" and x: "x = of_int p / of_int q"
    using quotient_of_denom_pos quotient_of_div by auto
  have p: "0 < p"
    using assms q x by (simp add: zero_less_divide_iff)
  define k where "k = bitlen p - bitlen q"
  note pb = bitlen_powi [OF p] and qb = bitlen_powi [OF q]
  have "of_int p / of_int q < (2 :: rat) powi bitlen p / 2 powi (bitlen q - 1)"
    by (rule frac_less) (use p pb qb in simp_all)
  moreover have "(2 :: rat) powi bitlen p / 2 powi (bitlen q - 1) = 2 powi (k + 1)"
    by (simp add: k_def power_int_diff [symmetric] algebra_simps)
  ultimately have hi: "x < 2 powi (k + 1)"
    by (simp add: x)
  have "(2 :: rat) powi (bitlen p - 1) / 2 powi bitlen q < of_int p / of_int q"
    by (rule frac_less2) (use q pb qb in simp_all)
  moreover have "(2 :: rat) powi (bitlen p - 1) / 2 powi bitlen q = 2 powi (k - 1)"
    by (simp add: k_def power_int_diff [symmetric] algebra_simps)
  ultimately have lo: "2 powi (k - 1) < x"
    by (simp add: x)
  show ?thesis
  proof (cases "2 powi k \<le> x")
    case True
    then show ?thesis
      using hi by (simp add: ilog2_def pq k_def [symmetric])
  next
    case False
    then show ?thesis
      using lo by (simp add: ilog2_def pq k_def [symmetric])
  qed
qed

lemma round_half_even_near: "\<bar>of_int (round_half_even x) - x\<bar> \<le> 1 / 2"
proof -
  have "of_int \<lfloor>x\<rfloor> \<le> x" and "x < of_int \<lfloor>x\<rfloor> + 1"
    by linarith+
  then show ?thesis
    unfolding round_half_even_def Let_def by (auto simp add: abs_le_iff)
qed

lemma round_half_even_ge:
  assumes "of_int n \<le> x"
  shows "n \<le> round_half_even x"
proof -
  have "n \<le> \<lfloor>x\<rfloor>"
    using assms by (simp add: le_floor_iff)
  moreover have "\<lfloor>x\<rfloor> \<le> round_half_even x"
    by (simp add: round_half_even_def Let_def)
  ultimately show ?thesis
    by simp
qed

lemma round_half_even_le:
  assumes "x \<le> of_int n"
  shows "round_half_even x \<le> n"
proof (cases "x = of_int n")
  case True
  then show ?thesis
    by (simp add: round_half_even_def)
next
  case False
  with assms have "x < of_int n"
    by simp
  then have "\<lfloor>x\<rfloor> < n"
    by (simp only: floor_less_iff)
  then have "\<lfloor>x\<rfloor> + 1 \<le> n"
    by simp
  moreover have "round_half_even x \<le> \<lfloor>x\<rfloor> + 1"
    by (simp add: round_half_even_def Let_def)
  ultimately show ?thesis
    by simp
qed

lemma fl_zero: "fl 0 = 0"
  by (simp add: fl_def)

lemma fl_nonneg:
  assumes "0 \<le> x"
  shows "0 \<le> fl x"
proof (cases "x = 0")
  case True
  then show ?thesis
    by (simp add: fl_def)
next
  case False
  define e where "e = max (ilog2 \<bar>x\<bar> - 52) (- 1074)"
  have "of_int 0 \<le> x / 2 powi e"
    using assms by simp
  then have "0 \<le> round_half_even (x / 2 powi e)"
    by (rule round_half_even_ge)
  then show ?thesis
    using False by (simp add: fl_def e_def [symmetric])
qed

text \<open>The rounding error is at most half a unit in the last place.\<close>

lemma fl_near:
  "\<bar>fl x - x\<bar> \<le> 2 powi (max (ilog2 \<bar>x\<bar> - 52) (- 1074)) / 2"
proof (cases "x = 0")
  case True
  then show ?thesis
    by (simp add: fl_def)
next
  case False
  define e where "e = max (ilog2 \<bar>x\<bar> - 52) (- 1074)"
  define y where "y = x / 2 powi e"
  have pos: "(0 :: rat) < 2 powi e"
    by simp
  have "fl x - x = (of_int (round_half_even y) - y) * 2 powi e"
    using False by (simp add: fl_def e_def [symmetric] y_def algebra_simps)
  then have "\<bar>fl x - x\<bar> = \<bar>of_int (round_half_even y) - y\<bar> * 2 powi e"
    by (simp add: abs_mult)
  also have "\<dots> \<le> 1 / 2 * 2 powi e"
    by (rule mult_right_mono) (use round_half_even_near in simp_all)
  finally show ?thesis
    by (simp add: e_def)
qed

text \<open>The result has a mantissa of at most 53 bits.\<close>

lemma fl_mantissa:
  assumes "x \<noteq> 0"
  shows "\<exists>m. fl x = of_int m * 2 powi (max (ilog2 \<bar>x\<bar> - 52) (- 1074)) \<and> \<bar>m\<bar> \<le> 2 ^ 53"
proof -
  define e where "e = max (ilog2 \<bar>x\<bar> - 52) (- 1074)"
  define y where "y = x / 2 powi e"
  have pos: "0 < \<bar>x\<bar>"
    using assms by simp
  have "\<bar>x\<bar> < 2 powi (ilog2 \<bar>x\<bar> + 1)"
    using ilog2_bounds [OF pos] by simp
  also have "\<dots> \<le> 2 powi (e + 53)"
    by (rule power_int_increasing) (simp_all add: e_def)
  also have "\<dots> = 2 powi e * 2 ^ 53"
    using power_int_add [of "2 :: rat" e 53] by simp
  finally have "\<bar>x\<bar> / 2 powi e < 2 ^ 53"
    by (simp add: pos_divide_less_eq mult.commute)
  then have "\<bar>y\<bar> < 2 ^ 53"
    by (simp add: y_def abs_divide)
  then have upper: "y \<le> of_int (2 ^ 53)" and lower: "of_int (- (2 ^ 53)) \<le> y"
    by (simp_all add: abs_less_iff)
  have "round_half_even y \<le> 2 ^ 53"
    using upper by (rule round_half_even_le)
  moreover have "- (2 ^ 53) \<le> round_half_even y"
    using lower by (rule round_half_even_ge)
  ultimately have "\<bar>round_half_even y\<bar> \<le> 2 ^ 53"
    by simp
  moreover have "fl x = of_int (round_half_even y) * 2 powi e"
    using assms by (simp add: fl_def Let_def e_def y_def)
  ultimately show ?thesis
    unfolding e_def by blast
qed

text \<open>Rounding does not cross a power of two.\<close>

lemma fl_ge_power:
  assumes "2 powi j \<le> x" and "- 1022 \<le> j"
  shows "2 powi j \<le> fl x"
proof -
  have x: "0 < x"
    using assms(1) by (rule less_le_trans [rotated]) simp
  define l where "l = ilog2 x"
  have l: "2 powi l \<le> x" "x < 2 powi (l + 1)"
    using ilog2_bounds [OF x] by (simp_all add: l_def)
  have less: "(2 :: rat) powi j < 2 powi (l + 1)"
    using assms(1) l(2) by simp
  have jl: "j \<le> l"
  proof (rule ccontr)
    assume "\<not> j \<le> l"
    then have "l + 1 \<le> j"
      by simp
    then have "(2 :: rat) powi (l + 1) \<le> 2 powi j"
      by (rule power_int_increasing) simp
    with less show False
      by simp
  qed
  then have e: "max (ilog2 x - 52) (- 1074) = l - 52"
    using assms(2) by (simp add: l_def)
  have flx: "fl x = of_int (round_half_even (x / 2 powi (l - 52))) * 2 powi (l - 52)"
    using x by (simp add: fl_def Let_def e)
  have "(2 :: rat) powi 52 = 2 powi l / 2 powi (l - 52)"
    by (simp add: power_int_diff [symmetric])
  also have "\<dots> \<le> x / 2 powi (l - 52)"
    using l(1) by (simp add: divide_right_mono)
  finally have "of_int (2 ^ 52) \<le> x / 2 powi (l - 52)"
    by simp
  then have "2 ^ 52 \<le> round_half_even (x / 2 powi (l - 52))"
    by (rule round_half_even_ge)
  then have "(of_int (2 ^ 52) :: rat) \<le> of_int (round_half_even (x / 2 powi (l - 52)))"
    by (simp only: of_int_le_iff)
  then have "(2 :: rat) powi 52 * 2 powi (l - 52) \<le> fl x"
    by (simp add: flx)
  moreover have "(2 :: rat) powi 52 * 2 powi (l - 52) = 2 powi l"
    using power_int_add [of "2 :: rat" 52 "l - 52"] by simp
  moreover have "(2 :: rat) powi j \<le> 2 powi l"
    using jl by (simp add: power_int_increasing)
  ultimately show ?thesis
    by simp
qed

lemma fl_tenth: "fl (1 / 10) = 3602879701896397 / 36028797018963968"
  by code_simp

lemma fl_tenth_fixed: "fl (fl (1 / 10)) = fl (1 / 10)"
  by code_simp

lemma fl_tenth_le_one: "fl (1 / 10) \<le> 1"
  by code_simp

lemma fadd_nonneg: "0 \<le> x \<Longrightarrow> 0 \<le> y \<Longrightarrow> 0 \<le> fadd x y"
  by (simp add: fadd_def fl_nonneg)

lemma fmul_nonneg: "0 \<le> x \<Longrightarrow> 0 \<le> y \<Longrightarrow> 0 \<le> fmul x y"
  by (simp add: fmul_def fl_nonneg)

lemma fdiv_nonneg: "0 \<le> x \<Longrightarrow> 0 \<le> y \<Longrightarrow> 0 \<le> fdiv x y"
  by (simp add: fdiv_def fl_nonneg)

lemma float_of_int_nonneg: "0 \<le> n \<Longrightarrow> 0 \<le> float_of_int n"
  by (simp add: float_of_int_def fl_nonneg)

lemma truediv_nonneg: "0 \<le> a \<Longrightarrow> 0 \<le> b \<Longrightarrow> 0 \<le> truediv a b"
  by (simp add: truediv_def fl_nonneg)

lemma fadd_ge_half: "1 / 2 \<le> x \<Longrightarrow> 0 \<le> y \<Longrightarrow> 1 / 2 \<le> fadd x y"
  using fl_ge_power [of "- 1" "x + y"] by (simp add: fadd_def)

section \<open>Properties of the scorers\<close>

lemma calculate_similarity_empty_query: "calculate_similarity self [] = 0"
  by (simp add: calculate_similarity_def)

lemma calculate_similarity_range:
  "0 \<le> calculate_similarity self query \<and> calculate_similarity self query \<le> 1"
  by (simp add: calculate_similarity_def Let_def fadd_nonneg truediv_nonneg fl_nonneg)

lemma calculate_relevance_upper: "calculate_relevance now self query \<le> 1"
  unfolding calculate_relevance_def Let_def by (rule min.cobounded2)

lemma calculate_relevance_lower:
  assumes "0 \<le> kb_priority self"
  shows "0 \<le> calculate_relevance now self query"
proof -
  define q where "q = set (split (lower query))"
  define tm where "tm = card (q \<inter> set (split (lower (kb_title self))))"
  define cm where "cm = card (q \<inter> set (split (lower (kb_content self))))"
  define s1 :: float where
    "s1 = (if substr (lower query) (lower (kb_title self)) then fadd 0 (fl (4 / 10)) else 0)"
  define s2 where
    "s2 = (if substr (lower query) (lower (kb_content self)) then fadd s1 (fl (3 / 10)) else s1)"
  define s3 where
    "s3 = (if substr (lower query) (lower (kb_keywords self)) then fadd s2 (fl (2 / 10)) else s2)"
  define s4 where
    "s4 = (if tm > 0 then fadd s3 (fmul (fl (2 / 10)) (truediv (int tm) (int (card q)))) else s3)"
  define s5 where
    "s5 = (if cm > 0 then fadd s4 (fmul (fl (1 / 10)) (truediv (int cm) (int (card q)))) else s4)"
  define s6 where "s6 = fadd s5 (fmul (float_of_int (kb_priority self)) (fl (5 / 100)))"
  define s7 where "s7 = (case kb_last_used self of
        None \<Rightarrow> s6
      | Some last_used \<Rightarrow>
          if kb_view_count self > 0
          then fadd s6 (min (fl (1 / 10))
                 (fdiv (fmul (float_of_int (kb_view_count self)) (fl (1 / 100)))
                    (float_of_int (max (days_between now last_used) 1))))
          else s6)"
  have eq: "calculate_relevance now self query = min s7 1"
    unfolding calculate_relevance_def Let_def s7_def s6_def s5_def s4_def s3_def s2_def s1_def
      tm_def cm_def q_def ..
  have "0 \<le> s1" by (simp add: s1_def fadd_nonneg fl_nonneg)
  then have "0 \<le> s2" by (simp add: s2_def fadd_nonneg fl_nonneg)
  then have "0 \<le> s3" by (simp add: s3_def fadd_nonneg fl_nonneg)
  then have "0 \<le> s4" by (simp add: s4_def fadd_nonneg fmul_nonneg truediv_nonneg fl_nonneg)
  then have "0 \<le> s5" by (simp add: s5_def fadd_nonneg fmul_nonneg truediv_nonneg fl_nonneg)
  then have "0 \<le> s6"
    using assms by (simp add: s6_def fadd_nonneg fmul_nonneg float_of_int_nonneg fl_nonneg)
  then have "0 \<le> s7"
    by (auto simp add: s7_def fadd_nonneg fmul_nonneg fdiv_nonneg float_of_int_nonneg fl_nonneg
          split: option.splits)
  then show ?thesis by (simp add: eq)
qed

lemma calculate_relevance_empty_query:
  assumes "0 \<le> kb_priority self"
  shows "1 / 2 \<le> calculate_relevance now self []"
proof -
  define s3 :: float where "s3 = fadd (fadd (fadd 0 (fl (4 / 10))) (fl (3 / 10))) (fl (2 / 10))"
  define s6 where "s6 = fadd s3 (fmul (float_of_int (kb_priority self)) (fl (5 / 100)))"
  define s7 where "s7 = (case kb_last_used self of
        None \<Rightarrow> s6
      | Some last_used \<Rightarrow>
          if kb_view_count self > 0
          then fadd s6 (min (fl (1 / 10))
                 (fdiv (fmul (float_of_int (kb_view_count self)) (fl (1 / 100)))
                    (float_of_int (max (days_between now last_used) 1))))
          else s6)"
  have words: "split (lower []) = []"
    by (simp add: split_def)
  have eq: "calculate_relevance now self [] = min s7 1"
    unfolding calculate_relevance_def Let_def s7_def s6_def s3_def words
    by (simp only: lower_Nil substr_Nil if_True list.set Int_empty_left card.empty less_irrefl if_False)
  have usage: "0 \<le> min (fl (1 / 10))
      (fdiv (fmul (float_of_int (kb_view_count self)) (fl (1 / 100))) (float_of_int (max d 1)))"
    if "0 < kb_view_count self" for d
    using that by (simp add: fdiv_nonneg fmul_nonneg float_of_int_nonneg fl_nonneg)
  have "1 / 2 \<le> s3"
    unfolding s3_def by code_simp
  then have s6: "1 / 2 \<le> s6"
    unfolding s6_def using assms
    by (intro fadd_ge_half fmul_nonneg float_of_int_nonneg fl_nonneg) simp_all
  have "1 / 2 \<le> s7"
  proof (cases "kb_last_used self")
    case None
    then show ?thesis
      using s6 by (simp add: s7_def)
  next
    case (Some last_used)
    show ?thesis
    proof (cases "kb_view_count self > 0")
      case True
      then have "s7 = fadd s6 (min (fl (1 / 10))
                 (fdiv (fmul (float_of_int (kb_view_count self)) (fl (1 / 100)))
                    (float_of_int (max (days_between now last_used) 1))))"
        by (simp add: s7_def Some)
      with fadd_ge_half [OF s6 usage [OF True]] show ?thesis
        by simp
    next
      case False
      then show ?thesis
        using s6 by (simp add: s7_def Some)
    qed
  qed
  then show ?thesis by (simp add: eq)
qed

text \<open>
  C1. The scores are claimed to lie in \<open>[0, 1]\<close> and to be \<open>0\<close> for the empty query.
  The case similarity does both (\<open>calculate_similarity_empty_query\<close>,
  \<open>calculate_similarity_range\<close>), and the knowledge relevance lies in \<open>[0, 1]\<close> for
  every entry whose priority is not negative (\<open>calculate_relevance_lower\<close>,
  \<open>calculate_relevance_upper\<close>). But the knowledge relevance has no test for an empty
  query: the empty string is a substring of the title, of the content and of the
  keywords, so every such entry scores at least \<open>0.5\<close> on it
  (\<open>calculate_relevance_empty_query\<close>), and an entry of priority 1 that was never used
  scores \<open>0.0 + 0.4 + 0.3 + 0.2 + 0.05\<close>, which is the float \<open>0.95\<close>, not \<open>0\<close>.
\<close>

theorem calculate_relevance_empty_query_nonzero:
  "calculate_relevance 0
     \<lparr>kb_id = 1, kb_title = ''a'', kb_content = ''b'', kb_keywords = [], kb_priority = 1,
      kb_status = ''Active'', kb_view_count = 0, kb_usefulness_count = 0, kb_last_used = None\<rparr>
     [] = fl (19 / 20)
   \<and> calculate_relevance 0
     \<lparr>kb_id = 1, kb_title = ''a'', kb_content = ''b'', kb_keywords = [], kb_priority = 1,
      kb_status = ''Active'', kb_view_count = 0, kb_usefulness_count = 0, kb_last_used = None\<rparr>
     [] \<noteq> 0"
  by code_simp

text \<open>
  C10, as stated: with an empty category every non-empty query that shares no word and
  no phrase with the description scores exactly \<open>0.1\<close>. The query of one blank is not
  empty, shares neither word nor phrase with the description \<open>abc\<close>, and scores \<open>0\<close>:
  a query without words returns before any bonus is added.
\<close>

theorem category_bonus_blank_query_counterexample:
  "td_category \<lparr>td_id = 1, td_incident_description = ''abc'', td_expected_root_cause = [],
        td_category = [], td_is_validated = 1, td_usefulness_count = None\<rparr> = []
   \<and> '' '' \<noteq> []
   \<and> set (split (lower '' '')) \<inter> set (split (lower ''abc'')) = {}
   \<and> \<not> substr (lower '' '') (lower ''abc'')
   \<and> calculate_similarity
        \<lparr>td_id = 1, td_incident_description = ''abc'', td_expected_root_cause = [],
         td_category = [], td_is_validated = 1, td_usefulness_count = None\<rparr> '' '' = 0
   \<and> calculate_similarity
        \<lparr>td_id = 1, td_incident_description = ''abc'', td_expected_root_cause = [],
         td_category = [], td_is_validated = 1, td_usefulness_count = None\<rparr> '' '' \<noteq> fl (1 / 10)"
  by code_simp

lemma calculate_similarity_no_words:
  "set (split (lower query)) = {} \<Longrightarrow> calculate_similarity self query = 0"
  by (simp add: calculate_similarity_def)

text \<open>
  C10, amended: for a training case whose category is empty and a query that contains
  at least one word, the similarity is the Jaccard term plus the phrase bonus plus the
  category bonus \<open>0.1\<close>, clamped to \<open>1\<close>; if moreover the query shares no word and no
  phrase with the description, the similarity is exactly the float \<open>0.1\<close> (which is not
  above the retrieval threshold \<open>0.1\<close>). A query without words scores \<open>0.0\<close>
  (\<open>calculate_similarity_no_words\<close>).
\<close>

theorem empty_category_bonus:
  assumes "td_category self = []" and "set (split (lower query)) \<noteq> {}"
  shows "calculate_similarity self query =
           min (fadd
                  (fadd
                     (truediv
                        (int (card (set (split (lower query)) \<inter>
                                    set (split (lower (td_incident_description self))))))
                        (int (card (set (split (lower query)) \<union>
                                    set (split (lower (td_incident_description self)))))))
                     (if substr (lower query) (lower (td_incident_description self))
                      then fl (2 / 10) else 0))
                  (fl (1 / 10))) 1
         \<and> (set (split (lower query)) \<inter> set (split (lower (td_incident_description self))) = {}
              \<and> \<not> substr (lower query) (lower (td_incident_description self))
            \<longrightarrow> calculate_similarity self query = fl (1 / 10)
                \<and> \<not> calculate_similarity self query > fl (1 / 10))"
  using assms
  by (simp add: calculate_similarity_def Let_def truediv_def fadd_def fl_zero fl_tenth_fixed
        fl_tenth_le_one)

theorem empty_category_bonus_witness:
  "td_category \<lparr>td_id = 1, td_incident_description = ''abc'', td_expected_root_cause = [],
        td_category = [], td_is_validated = 1, td_usefulness_count = None\<rparr> = []
   \<and> set (split (lower ''x'')) \<noteq> {}
   \<and> set (split (lower ''x'')) \<inter> set (split (lower ''abc'')) = {}
   \<and> \<not> substr (lower ''x'') (lower ''abc'')
   \<and> calculate_similarity
        \<lparr>td_id = 1, td_incident_description = ''abc'', td_expected_root_cause = [],
         td_category = [], td_is_validated = 1, td_usefulness_count = None\<rparr> ''x'' = fl (1 / 10)"
proof -
  have words: "set (split (lower ''x'')) \<noteq> {}"
    by code_simp
  have disjoint: "set (split (lower ''x'')) \<inter> set (split (lower ''abc'')) = {}"
    by code_simp
  have phrase: "\<not> substr (lower ''x'') (lower ''abc'')"
    by code_simp
  show ?thesis
    using words disjoint phrase
      empty_category_bonus [of
        "\<lparr>td_id = 1, td_incident_description = ''abc'', td_expected_root_cause = [],
          td_category = [], td_is_validated = 1, td_usefulness_count = None\<rparr>" "''x''"]
    by simp
qed

section \<open>Properties of retrieval\<close>

lemma insort_key_map:
  "insort_key f (h x) (map h ys) = map h (insort_key (\<lambda>y. f (h y)) x ys)"
  by (induction ys) simp_all

lemma sort_key_map:
  "sort_key f (map h xs) = map h (sort_key (\<lambda>y. f (h y)) xs)"
  by (induction xs) (simp_all add: insort_key_map)

lemma slice_to_map: "slice_to k (map h xs) = map h (slice_to k xs)"
  by (simp add: slice_to_def take_map)

lemma slice_to_prefix: "prefix (slice_to k xs) xs"
  by (simp add: slice_to_def take_is_prefix)

lemma length_slice_to: "0 \<le> k \<Longrightarrow> length (slice_to k xs) \<le> nat k"
  by (simp add: slice_to_def)

lemma set_slice_to: "set (slice_to k xs) \<subseteq> set xs"
  by (simp add: slice_to_def set_take_subset)

lemma sorted_wrt_slice_to: "sorted_wrt R xs \<Longrightarrow> sorted_wrt R (slice_to k xs)"
  by (simp add: slice_to_def sorted_wrt_take)

lemma sorted_desc_sort_key:
  fixes g :: "'a \<Rightarrow> float"
  shows "sorted_wrt (\<lambda>a b. g a \<ge> g b) (sort_key (\<lambda>e. - g e) xs)"
proof -
  have "sorted (map (\<lambda>e. - g e) (sort_key (\<lambda>e. - g e) xs))"
    by (rule sorted_sort_key)
  then show ?thesis
    by (simp add: sorted_map)
qed

lemma stable_desc_sort_key:
  fixes g :: "'a \<Rightarrow> float"
  shows "filter (\<lambda>e. g e = k) (sort_key (\<lambda>e. - g e) xs) = filter (\<lambda>e. g e = k) xs"
  using sort_key_stable [of "\<lambda>e. - g e" "- k" xs] by simp

text \<open>What a ranked retrieval returns: a slice of the stably sorted eligible documents.\<close>

lemma ranked_slice:
  fixes g :: "'a \<Rightarrow> float"
  assumes "res = slice_to limit (sort_key (\<lambda>e. - g e) elig)"
  shows "(0 \<le> limit \<longrightarrow> length res \<le> nat limit)
       \<and> set res \<subseteq> set elig
       \<and> sorted_wrt (\<lambda>a b. g a \<ge> g b) res
       \<and> (\<forall>k. prefix (filter (\<lambda>e. g e = k) res) (filter (\<lambda>e. g e = k) elig))"
proof -
  have "prefix (filter (\<lambda>e. g e = k) res) (filter (\<lambda>e. g e = k) elig)" for k
  proof -
    have "prefix (filter (\<lambda>e. g e = k) res) (filter (\<lambda>e. g e = k) (sort_key (\<lambda>e. - g e) elig))"
      unfolding assms by (rule filter_mono_prefix) (rule slice_to_prefix)
    then show ?thesis
      by (simp only: stable_desc_sort_key)
  qed
  moreover have "set res \<subseteq> set elig"
    using set_slice_to [of limit "sort_key (\<lambda>e. - g e) elig"] by (simp add: assms)
  ultimately show ?thesis
    by (simp add: assms length_slice_to sorted_wrt_slice_to sorted_desc_sort_key)
qed

lemma find_relevant_examples_async_eq:
  "find_relevant_examples_async db query limit =
     slice_to limit (sort_key (\<lambda>e. - combined_similarity query e) (eligible_examples db query))"
proof -
  have "map fst (slice_to limit (sort_key (\<lambda>x. - snd x)
          (map (\<lambda>e. (e, combined_similarity query e)) xs))) =
        slice_to limit (sort_key (\<lambda>e. - combined_similarity query e) xs)" for xs
    by (simp add: sort_key_map slice_to_map comp_def)
  then show ?thesis
    by (auto simp add: find_relevant_examples_async_def eligible_examples_def Let_def
          combined_similarity_def slice_to_def filter_empty_conv)
qed

lemma scored_entries_eq:
  "map fst (slice_to limit (scored_entries now db query)) =
     slice_to limit (sort_key (\<lambda>e. - combined_relevance now query e) (eligible_knowledge now db query))"
  by (simp add: scored_entries_def eligible_knowledge_def combined_relevance_def
        sort_key_map slice_to_map comp_def)

lemma find_relevant_knowledge_async_eq:
  "fst (find_relevant_knowledge_async now db query limit) =
     map (touch now)
       (slice_to limit (sort_key (\<lambda>e. - combined_relevance now query e) (eligible_knowledge now db query)))"
proof (cases "filter (\<lambda>k. kb_status k = ''Active'') db = []")
  case True
  then have "eligible_knowledge now db query = []"
    by (auto simp add: eligible_knowledge_def filter_empty_conv)
  with True show ?thesis
    by (simp add: find_relevant_knowledge_async_def slice_to_def)
next
  case False
  then show ?thesis
    by (simp add: find_relevant_knowledge_async_def Let_def scored_entries_eq)
qed

text \<open>
  C2. For every query and corpus and every limit, which counts documents and so is not
  negative, both retrievals return at most \<open>limit\<close> documents; every returned document
  is an eligible row whose base score is strictly above the float \<open>0.1\<close>; the returned
  list is in descending order of the combined score, the base score plus \<open>0.05\<close> per
  usefulness mark in float arithmetic; and documents of equal combined score keep the
  order they have in the corpus. The knowledge entries are returned with their usage
  statistics updated; the properties are those of the entries as they were scored.
\<close>

theorem retrieval_ranked:
  "(0 \<le> limit \<longrightarrow> length (find_relevant_examples_async tdb query limit) \<le> nat limit)
   \<and> (\<forall>e \<in> set (find_relevant_examples_async tdb query limit).
         e \<in> set tdb \<and> td_is_validated e = 1 \<and> calculate_similarity e query > fl (1 / 10))
   \<and> sorted_wrt (\<lambda>a b. combined_similarity query a \<ge> combined_similarity query b)
        (find_relevant_examples_async tdb query limit)
   \<and> (\<forall>k. prefix (filter (\<lambda>e. combined_similarity query e = k)
                      (find_relevant_examples_async tdb query limit))
                   (filter (\<lambda>e. combined_similarity query e = k) (eligible_examples tdb query)))
   \<and> (\<exists>top. fst (find_relevant_knowledge_async now kdb query limit) = map (touch now) top
         \<and> (0 \<le> limit \<longrightarrow> length top \<le> nat limit)
         \<and> (\<forall>e \<in> set top. e \<in> set kdb \<and> kb_status e = ''Active''
                \<and> calculate_relevance now e query > fl (1 / 10))
         \<and> sorted_wrt (\<lambda>a b. combined_relevance now query a \<ge> combined_relevance now query b) top
         \<and> (\<forall>k. prefix (filter (\<lambda>e. combined_relevance now query e = k) top)
                   (filter (\<lambda>e. combined_relevance now query e = k)
                      (eligible_knowledge now kdb query))))"
proof -
  note t = ranked_slice [OF find_relevant_examples_async_eq [of tdb query limit]]
  have t_set: "\<forall>e \<in> set (find_relevant_examples_async tdb query limit).
         e \<in> set tdb \<and> td_is_validated e = 1 \<and> calculate_similarity e query > fl (1 / 10)"
    using t by (auto simp add: eligible_examples_def)
  define top where "top = slice_to limit
     (sort_key (\<lambda>e. - combined_relevance now query e) (eligible_knowledge now kdb query))"
  note k = ranked_slice [OF top_def]
  have k_set: "\<forall>e \<in> set top. e \<in> set kdb \<and> kb_status e = ''Active''
                \<and> calculate_relevance now e query > fl (1 / 10)"
    using k by (auto simp add: eligible_knowledge_def)
  have k_eq: "fst (find_relevant_knowledge_async now kdb query limit) = map (touch now) top"
    by (simp add: find_relevant_knowledge_async_eq top_def)
  show ?thesis
    using t t_set k k_set k_eq by blast
qed

text \<open>
  Two cases whose exact combined scores are both \<open>3/5\<close>: the floats differ in the last
  place, \<open>0.5 + 0.1 = 0.6\<close> and \<open>0.45 + 0.15000000000000002 = 0.6000000000000001\<close>, so
  the second case is ranked first. An entry whose exact relevance is \<open>1/10\<close> has the float
  relevance \<open>0.10000000000000002\<close> and passes the threshold.
\<close>

lemma combined_similarity_last_place:
  "combined_similarity ''x y'' (example_case 1 ''x'' (Some 2)) = fl (6 / 10)
   \<and> combined_similarity ''x y'' (example_case 2 ''zx y q'' (Some 3)) = fl (6 / 10) + 2 powi (- 53)"
  by code_simp

lemma calculate_relevance_last_place:
  "calculate_relevance 0
     \<lparr>kb_id = 1, kb_title = ''a b'', kb_content = ''c'', kb_keywords = [], kb_priority = 0,
      kb_status = ''Active'', kb_view_count = 0, kb_usefulness_count = 0, kb_last_used = None\<rparr>
     ''a b c d e'' = fl (1 / 10) + 2 powi (- 56)"
  by code_simp

theorem retrieval_ranked_witness:
  "(0 :: int) \<le> 1
   \<and> length (find_relevant_examples_async
         [example_case 1 ''x'' (Some 2), example_case 2 ''zx y q'' (Some 3), example_case 3 ''z'' None]
         ''x y'' 1) \<le> nat 1
   \<and> find_relevant_examples_async
         [example_case 1 ''x'' (Some 2), example_case 2 ''zx y q'' (Some 3), example_case 3 ''z'' None]
         ''x y'' 1 = [example_case 2 ''zx y q'' (Some 3)]
   \<and> fst (find_relevant_knowledge_async 0
         [\<lparr>kb_id = 1, kb_title = ''a b'', kb_content = ''c'', kb_keywords = [], kb_priority = 0,
           kb_status = ''Active'', kb_view_count = 0, kb_usefulness_count = 0,
           kb_last_used = None\<rparr>]
         ''a b c d e'' 1)
       = [\<lparr>kb_id = 1, kb_title = ''a b'', kb_content = ''c'', kb_keywords = [], kb_priority = 0,
           kb_status = ''Active'', kb_view_count = 1, kb_usefulness_count = 0,
           kb_last_used = Some 0\<rparr>]"
proof -
  let ?c1 = "example_case 1 ''x'' (Some 2)"
  let ?c2 = "example_case 2 ''zx y q'' (Some 3)"
  let ?c3 = "example_case 3 ''z'' None"
  let ?k = "\<lparr>kb_id = 1, kb_title = ''a b'', kb_content = ''c'', kb_keywords = [], kb_priority = 0,
           kb_status = ''Active'', kb_view_count = 0, kb_usefulness_count = 0,
           kb_last_used = None\<rparr>"
  have validated: "td_is_validated (example_case i d u) = 1" for i d u
    by (simp add: example_case_def)
  have "calculate_similarity ?c1 ''x y'' > fl (1 / 10)"
    by code_simp
  moreover have "calculate_similarity ?c2 ''x y'' > fl (1 / 10)"
    by code_simp
  moreover have "\<not> calculate_similarity ?c3 ''x y'' > fl (1 / 10)"
    by code_simp
  ultimately have eligible: "eligible_examples [?c1, ?c2, ?c3] ''x y'' = [?c1, ?c2]"
    by (simp add: eligible_examples_def validated)
  have "combined_similarity ''x y'' ?c1 < combined_similarity ''x y'' ?c2"
    using combined_similarity_last_place by simp
  then have "sort_key (\<lambda>e. - combined_similarity ''x y'' e) [?c1, ?c2] = [?c2, ?c1]"
    by simp
  then have examples: "find_relevant_examples_async [?c1, ?c2, ?c3] ''x y'' 1 = [?c2]"
    by (simp add: find_relevant_examples_async_eq eligible slice_to_def)
  have "calculate_relevance 0 ?k ''a b c d e'' > fl (1 / 10)"
    using calculate_relevance_last_place by simp
  then have "eligible_knowledge 0 [?k] ''a b c d e'' = [?k]"
    by (simp add: eligible_knowledge_def)
  then have knowledge: "fst (find_relevant_knowledge_async 0 [?k] ''a b c d e'' 1) = [touch 0 ?k]"
    by (simp add: find_relevant_knowledge_async_eq slice_to_def)
  have "length (find_relevant_examples_async [?c1, ?c2, ?c3] ''x y'' 1) \<le> nat 1"
    using retrieval_ranked [of 1 "[?c1, ?c2, ?c3]" "''x y''" 0 "[?k]"]
    by simp
  then show ?thesis
    using examples knowledge by (simp add: touch_def)
qed

section \<open>Properties of solution fusion\<close>

lemma isspace_lower_char [simp]: "isspace (lower_char c) = isspace c"
  by (auto simp add: isspace_def lower_char_def Let_def)

lemma dropWhile_isspace_lower: "dropWhile isspace (lower s) = lower (dropWhile isspace s)"
  by (simp add: lower_def dropWhile_map comp_def)

lemma lower_rev: "lower (rev s) = rev (lower s)"
  by (simp add: lower_def rev_map)

lemma lower_append: "lower (a @ b) = lower a @ lower b"
  by (simp add: lower_def)

lemma strip_lower: "strip (lower s) = lower (strip s)"
  by (simp add: strip_def dropWhile_isspace_lower lower_rev [symmetric])

lemma dropWhile_spaces_append:
  "list_all isspace l \<Longrightarrow> dropWhile isspace (l @ s) = dropWhile isspace s"
  by (simp add: list_all_iff dropWhile_append2)

lemma strip_spaces_left: "list_all isspace l \<Longrightarrow> strip (l @ s) = strip s"
  by (simp add: strip_def dropWhile_spaces_append)

lemma strip_spaces_right:
  assumes "list_all isspace r"
  shows "strip (s @ r) = strip s"
proof (cases "list_all isspace s")
  case True
  with assms have "dropWhile isspace (s @ r) = []" and "dropWhile isspace s = []"
    by (simp_all add: list_all_iff)
  then show ?thesis
    by (simp only: strip_def)
next
  case False
  then have "dropWhile isspace (s @ r) = dropWhile isspace s @ r"
    by (auto simp add: list_all_iff dropWhile_append1)
  moreover have "dropWhile isspace (rev r @ t) = dropWhile isspace t" for t
    using assms by (simp add: dropWhile_spaces_append list_all_iff)
  ultimately show ?thesis
    by (simp add: strip_def)
qed

lemma strip_decompose:
  "\<exists>l r. s = l @ strip s @ r \<and> list_all isspace l \<and> list_all isspace r"
proof -
  define d where "d = dropWhile isspace s"
  have "s = takeWhile isspace s @ d"
    by (simp add: d_def)
  moreover have "d = rev (dropWhile isspace (rev d)) @ rev (takeWhile isspace (rev d))"
    by (metis rev_append rev_rev_ident takeWhile_dropWhile_id)
  moreover have "list_all isspace (takeWhile isspace s)"
    by (simp add: list_all_iff) (meson set_takeWhileD)
  moreover have "list_all isspace (rev (takeWhile isspace (rev d)))"
    by (simp add: list_all_iff) (meson set_takeWhileD)
  ultimately show ?thesis
    unfolding strip_def d_def [symmetric] by metis
qed

lemma same_text_iff: "same_text a b \<longleftrightarrow> strip (lower a) = strip (lower b)"
proof
  assume "same_text a b"
  then obtain l1 r1 l2 r2 core1 core2 where
    a: "a = l1 @ core1 @ r1" and b: "b = l2 @ core2 @ r2"
    and sp: "list_all isspace l1" "list_all isspace r1" "list_all isspace l2" "list_all isspace r2"
    and core: "lower core1 = lower core2"
    by (auto simp add: same_text_def)
  have "strip a = strip core1"
    using sp strip_spaces_left [of l1 "core1 @ r1"] strip_spaces_right [of r1 core1]
    by (simp add: a)
  moreover have "strip b = strip core2"
    using sp strip_spaces_left [of l2 "core2 @ r2"] strip_spaces_right [of r2 core2]
    by (simp add: b)
  ultimately have "lower (strip a) = lower (strip core1)" and "lower (strip b) = lower (strip core2)"
    by simp_all
  then show "strip (lower a) = strip (lower b)"
    using core by (simp only: strip_lower [symmetric])
next
  assume eq: "strip (lower a) = strip (lower b)"
  obtain l1 r1 where a: "a = l1 @ strip a @ r1" and s1: "list_all isspace l1" "list_all isspace r1"
    using strip_decompose [of a] by blast
  obtain l2 r2 where b: "b = l2 @ strip b @ r2" and s2: "list_all isspace l2" "list_all isspace r2"
    using strip_decompose [of b] by blast
  have "lower (strip a) = lower (strip b)"
    using eq by (simp add: strip_lower)
  with a b s1 s2 show "same_text a b"
    unfolding same_text_def by (intro exI [of _ l1] exI [of _ r1] exI [of _ l2] exI [of _ r2]
      exI [of _ "strip a"] exI [of _ "strip b"]) simp
qed

lemma unique_solutions_keys:
  "set (map normalized (unique_solutions seen ss)) = normalized ` set ss - seen"
  by (induction ss arbitrary: seen) (auto simp add: Let_def normalized_def)

lemma unique_solutions_distinct: "distinct (map normalized (unique_solutions seen ss))"
proof (induction ss arbitrary: seen)
  case Nil
  show ?case by simp
next
  case (Cons s ss)
  have "normalized s \<notin> set (map normalized (unique_solutions (insert (normalized s) seen) ss))"
    by (simp only: unique_solutions_keys) simp
  with Cons show ?case
    by (simp add: Let_def normalized_def [symmetric])
qed

lemma unique_solutions_subseq: "subseq (unique_solutions seen ss) ss"
  by (induction ss arbitrary: seen) (auto simp add: Let_def intro: list_emb_Cons)

lemma distinct_map_count:
  "distinct (map f xs) \<Longrightarrow> k \<in> f ` set xs \<Longrightarrow> length (filter (\<lambda>t. f t = k) xs) = 1"
proof (induction xs)
  case Nil
  then show ?case by simp
next
  case (Cons x xs)
  show ?case
  proof (cases "f x = k")
    case True
    with Cons.prems have "filter (\<lambda>t. f t = k) xs = []"
      by (force simp add: filter_empty_conv image_iff)
    with True show ?thesis by simp
  next
    case False
    with Cons show ?thesis by auto
  qed
qed

lemma renumber_Cons: "renumber n (s # ss) = s\<lparr>sol_order := int n\<rparr> # renumber (Suc n) ss"
  by (simp add: renumber_def enumerate_simps)

lemma renumber_Nil: "renumber n [] = []"
  by (simp add: renumber_def)

lemma renumber_erase: "map erase_order (renumber n ss) = map erase_order ss"
  by (induction ss arbitrary: n) (simp_all add: renumber_Cons renumber_Nil erase_order_def)

lemma renumber_orders: "map sol_order (renumber n ss) = map int [n..<n + length ss]"
proof (induction ss arbitrary: n)
  case Nil
  show ?case by (simp add: renumber_Nil)
next
  case (Cons s ss)
  have "n < n + length (s # ss)" and "n + length (s # ss) = Suc n + length ss"
    by simp_all
  then have "[n..<n + length (s # ss)] = n # [Suc n..<Suc n + length ss]"
    by (metis upt_conv_Cons)
  with Cons [of "Suc n"] show ?case
    by (simp only: renumber_Cons list.map) simp
qed

lemma length_renumber: "length (renumber n ss) = length ss"
  by (simp add: renumber_def)

lemma normalized_erase: "normalized (erase_order s) = normalized s"
  by (simp add: normalized_def erase_order_def)

lemma verified_first_erase: "verified_first (erase_order a) (erase_order b) = verified_first a b"
  by (simp add: verified_first_def erase_order_def)

lemma count_normalized_renumber:
  "length (filter (\<lambda>t. normalized t = k) (renumber n ss)) = length (filter (\<lambda>t. normalized t = k) ss)"
proof -
  have "length (filter (\<lambda>t. normalized t = k) xs) =
        length (filter (\<lambda>t. normalized t = k) (map erase_order xs))" for xs
    by (simp add: filter_map comp_def normalized_erase)
  then show ?thesis
    by (metis renumber_erase)
qed

lemma sorted_wrt_renumber: "sorted_wrt verified_first (renumber n ss) = sorted_wrt verified_first ss"
proof -
  have "sorted_wrt verified_first xs = sorted_wrt verified_first (map erase_order xs)" for xs
    by (simp add: sorted_wrt_map verified_first_erase)
  then show ?thesis
    by (metis renumber_erase)
qed

lemma sort_key_verified_first:
  "sorted_wrt verified_first (sort_key (\<lambda>s. (\<not> sol_user_verified s, - sol_usefulness_count s)) ss)"
proof -
  have "sorted (map (\<lambda>s. (\<not> sol_user_verified s, - sol_usefulness_count s))
          (sort_key (\<lambda>s. (\<not> sol_user_verified s, - sol_usefulness_count s)) ss))"
    by (rule sorted_sort_key)
  then have "sorted_wrt (\<lambda>a b. (\<not> sol_user_verified a, - sol_usefulness_count a)
                              \<le> (\<not> sol_user_verified b, - sol_usefulness_count b))
          (sort_key (\<lambda>s. (\<not> sol_user_verified s, - sol_usefulness_count s)) ss)"
    by (simp add: sorted_map)
  then show ?thesis
    by (rule sorted_wrt_mono_rel [rotated]) (auto simp add: verified_first_def less_eq_prod_def)
qed

lemma recommended_solutions_eq:
  "recommended_solutions feedback_table top_training =
     renumber 1 (sort_key (\<lambda>s. (\<not> sol_user_verified s, - sol_usefulness_count s))
       (unique_solutions {} (candidate_solutions feedback_table top_training)))"
  by (simp add: recommended_solutions_def candidate_solutions_def renumber_def Let_def)

lemma unique_solutions_subset: "set (unique_solutions seen ss) \<subseteq> set ss"
  by (induction ss arbitrary: seen) (auto simp add: Let_def)

text \<open>
  C3. For the recommended solutions built from the ranked training matches: for every
  candidate, exactly one solution of the final list has a description that differs from
  the candidate's only by case and by leading or trailing whitespace, and every solution
  of the final list is one of the candidates up to its order index; the final list has
  the verified solutions first and, among solutions of equal verification, descending
  usefulness counts; its order indices are \<open>1..N\<close>.
\<close>

theorem fusion_dedup_and_order:
  "(\<forall>s \<in> set (candidate_solutions feedback_table top_training).
      length (filter (\<lambda>t. same_text (sol_description t) (sol_description s))
                (recommended_solutions feedback_table top_training)) = 1)
   \<and> (\<forall>t \<in> set (recommended_solutions feedback_table top_training).
        \<exists>s \<in> set (candidate_solutions feedback_table top_training).
          erase_order t = erase_order s)
   \<and> sorted_wrt verified_first (recommended_solutions feedback_table top_training)
   \<and> map sol_order (recommended_solutions feedback_table top_training) =
       map int [1..<Suc (length (recommended_solutions feedback_table top_training))]"
proof -
  let ?cands = "candidate_solutions feedback_table top_training"
  let ?key = "\<lambda>s. (\<not> sol_user_verified s, - sol_usefulness_count s)"
  let ?u = "unique_solutions {} ?cands"
  have count: "length (filter (\<lambda>t. same_text (sol_description t) (sol_description s))
                (recommended_solutions feedback_table top_training)) = 1"
    if "s \<in> set ?cands" for s
  proof -
    have "normalized s \<in> normalized ` set ?u"
      using that unique_solutions_keys [of "{}" ?cands] by simp
    then have "length (filter (\<lambda>t. normalized t = normalized s) ?u) = 1"
      by (rule distinct_map_count [OF unique_solutions_distinct])
    then have "length (filter (\<lambda>t. normalized t = normalized s) (sort_key ?key ?u)) = 1"
      by (simp add: filter_sort)
    then show ?thesis
      by (simp add: recommended_solutions_eq same_text_iff normalized_def [symmetric]
            count_normalized_renumber)
  qed
  have "sorted_wrt verified_first (recommended_solutions feedback_table top_training)"
    by (simp add: recommended_solutions_eq sorted_wrt_renumber sort_key_verified_first)
  moreover have "map sol_order (recommended_solutions feedback_table top_training) =
       map int [1..<Suc (length (recommended_solutions feedback_table top_training))]"
    by (simp add: recommended_solutions_eq renumber_orders length_renumber)
  moreover have "\<exists>s \<in> set ?cands. erase_order t = erase_order s"
    if "t \<in> set (recommended_solutions feedback_table top_training)" for t
  proof -
    have "erase_order t \<in> set (map erase_order (renumber 1 (sort_key ?key ?u)))"
      using that by (simp add: recommended_solutions_eq)
    then have "erase_order t \<in> erase_order ` set ?u"
      by (simp add: renumber_erase)
    then show ?thesis
      using unique_solutions_subset [of "{}" ?cands] by blast
  qed
  ultimately show ?thesis
    using count by blast
qed

theorem fusion_dedup_and_order_witness:
  "candidate_solutions [example_feedback 1 ''purge queue'' 2]
       [example_case 1 ''Restart'' None, example_case 2 '' restart '' (Some 3),
        example_case 3 ''Purge Queue now'' None]
     = [\<lparr>sol_order = 1, sol_description = ''Restart'', sol_case = 1, sol_usefulness_count = 0,
         sol_user_verified = False, sol_feedback_incident_description = None,
         sol_feedback_solution_description = None\<rparr>,
        \<lparr>sol_order = 2, sol_description = '' restart '', sol_case = 2, sol_usefulness_count = 3,
         sol_user_verified = False, sol_feedback_incident_description = None,
         sol_feedback_solution_description = None\<rparr>,
        \<lparr>sol_order = 3, sol_description = ''Purge Queue now'', sol_case = 3,
         sol_usefulness_count = 2, sol_user_verified = True,
         sol_feedback_incident_description = Some ''Unknown incident'',
         sol_feedback_solution_description = Some ''purge queue''\<rparr>]
   \<and> recommended_solutions [example_feedback 1 ''purge queue'' 2]
       [example_case 1 ''Restart'' None, example_case 2 '' restart '' (Some 3),
        example_case 3 ''Purge Queue now'' None]
     = [\<lparr>sol_order = 1, sol_description = ''Purge Queue now'', sol_case = 3,
         sol_usefulness_count = 2, sol_user_verified = True,
         sol_feedback_incident_description = Some ''Unknown incident'',
         sol_feedback_solution_description = Some ''purge queue''\<rparr>,
        \<lparr>sol_order = 2, sol_description = ''Restart'', sol_case = 1, sol_usefulness_count = 0,
         sol_user_verified = False, sol_feedback_incident_description = None,
         sol_feedback_solution_description = None\<rparr>]
   \<and> length (filter (\<lambda>t. same_text (sol_description t) '' restart '')
        (recommended_solutions [example_feedback 1 ''purge queue'' 2]
           [example_case 1 ''Restart'' None, example_case 2 '' restart '' (Some 3),
            example_case 3 ''Purge Queue now'' None])) = 1"
proof -
  let ?fb = "[example_feedback 1 ''purge queue'' 2]"
  let ?top = "[example_case 1 ''Restart'' None, example_case 2 '' restart '' (Some 3),
        example_case 3 ''Purge Queue now'' None]"
  let ?s2 = "\<lparr>sol_order = 2, sol_description = '' restart '', sol_case = 2, sol_usefulness_count = 3,
         sol_user_verified = False, sol_feedback_incident_description = None,
         sol_feedback_solution_description = None\<rparr>"
  have cands: "candidate_solutions ?fb ?top
     = [\<lparr>sol_order = 1, sol_description = ''Restart'', sol_case = 1, sol_usefulness_count = 0,
         sol_user_verified = False, sol_feedback_incident_description = None,
         sol_feedback_solution_description = None\<rparr>,
        ?s2,
        \<lparr>sol_order = 3, sol_description = ''Purge Queue now'', sol_case = 3,
         sol_usefulness_count = 2, sol_user_verified = True,
         sol_feedback_incident_description = Some ''Unknown incident'',
         sol_feedback_solution_description = Some ''purge queue''\<rparr>]"
    by code_simp
  have out: "recommended_solutions ?fb ?top
     = [\<lparr>sol_order = 1, sol_description = ''Purge Queue now'', sol_case = 3,
         sol_usefulness_count = 2, sol_user_verified = True,
         sol_feedback_incident_description = Some ''Unknown incident'',
         sol_feedback_solution_description = Some ''purge queue''\<rparr>,
        \<lparr>sol_order = 2, sol_description = ''Restart'', sol_case = 1, sol_usefulness_count = 0,
         sol_user_verified = False, sol_feedback_incident_description = None,
         sol_feedback_solution_description = None\<rparr>]"
    by code_simp
  have "?s2 \<in> set (candidate_solutions ?fb ?top)"
    by (simp only: cands) simp
  then have "length (filter (\<lambda>t. same_text (sol_description t) (sol_description ?s2))
        (recommended_solutions ?fb ?top)) = 1"
    using fusion_dedup_and_order [of ?fb ?top] by blast
  then have "length (filter (\<lambda>t. same_text (sol_description t) '' restart '')
        (recommended_solutions ?fb ?top)) = 1"
    by simp
  with cands out show ?thesis
    by (simp only: simp_thms)
qed

section \<open>Properties of the feedback ledger\<close>

lemma feedback_mark_source [simp]: "feedback (mark_source kb td s) = feedback s"
  by (simp add: mark_source_def split: option.splits)

lemma feedback_unmark_source [simp]: "feedback (unmark_source kb td s) = feedback s"
  by (simp add: unmark_source_def split: option.splits)

lemma le_fold_max: "x \<in> set xs \<Longrightarrow> x \<le> fold max xs (a :: int)"
proof (induction xs arbitrary: a)
  case Nil
  then show ?case by simp
next
  case (Cons y ys)
  have mono: "b \<le> fold max ys b" for b :: int
    by (induction ys arbitrary: b) (auto intro: order_trans [OF max.cobounded2])
  show ?case
  proof (cases "x = y")
    case True
    then show ?thesis
      using mono [of "max y a"] by simp
  next
    case False
    with Cons show ?thesis by simp
  qed
qed

lemma next_id_fresh: "row \<in> set rows \<Longrightarrow> fb_id row < next_id rows"
  using le_fold_max [of "fb_id row" "map fb_id rows" 0] by (simp add: next_id_def)

lemma find_append_last:
  "(\<forall>x \<in> set old. \<not> P x) \<Longrightarrow> P r \<Longrightarrow> find P (old @ [r]) = Some r"
  by (induction old) simp_all

lemma find_None_filter: "find P xs = None \<longleftrightarrow> filter P xs = []"
  by (induction xs) simp_all

lemma first_mark:
  assumes "filter (identity_row d ord kb td rca) (feedback s) = []"
  shows "one_row (feedback s) (identity_row d ord kb td rca) 1
           (snd (mark_step_useful now s ord d kb td rca inc ty))"
proof -
  have none: "find (identity_row d ord kb td rca) (feedback s) = None"
    using assms by (simp add: find_None_filter)
  have old: "\<forall>x \<in> set (feedback s). \<not> identity_row d ord kb td rca x \<and> fb_id x \<noteq> next_id (feedback s)"
    using assms next_id_fresh [of _ "feedback s"] by (fastforce simp add: filter_empty_conv)
  show ?thesis
    unfolding one_row_def mark_step_useful_def Let_def none
    using old by (simp add: identity_row_def)
qed

lemma next_mark:
  assumes "one_row old (identity_row d ord kb td rca) k s"
  shows "one_row old (identity_row d ord kb td rca) (k + 1)
           (snd (mark_step_useful now s ord d kb td rca inc ty))"
proof -
  from assms obtain r where r: "feedback s = old @ [r]" "identity_row d ord kb td rca r"
      "fb_usefulness_count r = k"
      "\<forall>x \<in> set old. \<not> identity_row d ord kb td rca x \<and> fb_id x \<noteq> fb_id r"
    by (auto simp add: one_row_def)
  have found: "find (identity_row d ord kb td rca) (feedback s) = Some r"
    using r by (simp add: find_append_last)
  have keep: "map (\<lambda>row. if fb_id row = fb_id r then g row else row) old = old" for g
    using r(4) by (induction old) simp_all
  show ?thesis
    unfolding one_row_def mark_step_useful_def Let_def found
    using r by (simp add: keep identity_row_def)
qed

lemma mark_many_one_row:
  "one_row old (identity_row d ord kb td rca) k s \<Longrightarrow>
   one_row old (identity_row d ord kb td rca) (k + int (length calls))
     (mark_many s ord d kb td rca calls)"
proof (induction calls arbitrary: s k)
  case Nil
  then show ?case by (simp add: mark_many_def)
next
  case (Cons c calls)
  obtain now inc ty where c: "c = (now, inc, ty)"
    by (cases c)
  have "one_row old (identity_row d ord kb td rca) (k + 1)
          (snd (mark_step_useful now s ord d kb td rca inc ty))"
    using Cons.prems by (rule next_mark)
  from Cons.IH [OF this] show ?case
    by (simp add: mark_many_def c add.assoc)
qed

lemma one_row_filter:
  "one_row old P k s \<Longrightarrow> \<exists>row. filter P (feedback s) = [row] \<and> fb_usefulness_count row = k"
  by (auto simp add: one_row_def filter_empty_conv)

lemma mark_n_times:
  assumes "filter (identity_row d ord kb td rca) (feedback db) = []" and "calls \<noteq> []"
  shows "\<exists>row. filter (identity_row d ord kb td rca) (feedback (mark_many db ord d kb td rca calls)) = [row]
           \<and> fb_usefulness_count row = int (length calls)"
proof -
  obtain c cs where calls: "calls = c # cs"
    using assms(2) by (cases calls) auto
  obtain now inc ty where c: "c = (now, inc, ty)"
    by (cases c)
  have "one_row (feedback db) (identity_row d ord kb td rca) 1
          (snd (mark_step_useful now db ord d kb td rca inc ty))"
    using assms(1) by (rule first_mark)
  then have "one_row (feedback db) (identity_row d ord kb td rca) (1 + int (length cs))
          (mark_many (snd (mark_step_useful now db ord d kb td rca inc ty)) ord d kb td rca cs)"
    by (rule mark_many_one_row)
  then have "one_row (feedback db) (identity_row d ord kb td rca) (int (length calls))
          (mark_many db ord d kb td rca calls)"
    by (simp add: mark_many_def calls c)
  then show ?thesis
    by (rule one_row_filter)
qed

lemma unmark_last:
  assumes "find (identity_row d ord kb td rca) (feedback db) = Some fb"
    and "fb_usefulness_count fb = 1"
  shows "feedback (snd (unmark_step_useful now db ord d kb td rca))
           = filter (\<lambda>row. fb_id row \<noteq> fb_id fb) (feedback db)
         \<and> fb \<notin> set (feedback (snd (unmark_step_useful now db ord d kb td rca)))
         \<and> success (fst (unmark_step_useful now db ord d kb td rca))"
  using assms by (simp add: unmark_step_useful_def Let_def)

lemma unmark_missing:
  assumes "find (identity_row d ord kb td rca) (feedback db) = None"
  shows "unmark_step_useful now db ord d kb td rca
           = (\<lparr>success = False, usefulness_count = None,
               message = Some ''No feedback found to remove.''\<rparr>, db)"
  using assms by (simp add: unmark_step_useful_def)

text \<open>
  C4. Marking one identity tuple N times (N at least 1), starting from a table with no
  row of that tuple, leaves exactly one row of the tuple, with \<open>usefulness_count = N\<close>;
  unmarking a tuple whose row has \<open>usefulness_count = 1\<close> deletes that row and reports
  success; unmarking a tuple that has no row returns the response
  \<open>success = False, "No feedback found to remove."\<close> and the store as it was.
\<close>

theorem feedback_ledger:
  "(filter (identity_row d ord kb td rca) (feedback db) = [] \<and> calls \<noteq> [] \<longrightarrow>
      (\<exists>row. filter (identity_row d ord kb td rca)
                (feedback (mark_many db ord d kb td rca calls)) = [row]
          \<and> fb_usefulness_count row = int (length calls)))
   \<and> (find (identity_row d ord kb td rca) (feedback db) = Some fb
        \<and> fb_usefulness_count fb = 1 \<longrightarrow>
      feedback (snd (unmark_step_useful now db ord d kb td rca))
        = filter (\<lambda>row. fb_id row \<noteq> fb_id fb) (feedback db)
      \<and> fb \<notin> set (feedback (snd (unmark_step_useful now db ord d kb td rca)))
      \<and> success (fst (unmark_step_useful now db ord d kb td rca)))
   \<and> (find (identity_row d ord kb td rca) (feedback db) = None \<longrightarrow>
      unmark_step_useful now db ord d kb td rca
        = (\<lparr>success = False, usefulness_count = None,
            message = Some ''No feedback found to remove.''\<rparr>, db))"
  using mark_n_times [of d ord kb td rca db calls] unmark_last [of d ord kb td rca db fb now]
    unmark_missing [of d ord kb td rca db now]
  by blast

theorem feedback_ledger_witness:
  "filter (identity_row ''Restart gate service'' 1 (Some 7) None None) (feedback example_store) = []
   \<and> example_calls \<noteq> []
   \<and> (\<exists>row. filter (identity_row ''Restart gate service'' 1 (Some 7) None None)
                (feedback (mark_many example_store 1 ''Restart gate service'' (Some 7) None None
                   example_calls)) = [row]
          \<and> fb_usefulness_count row = int (length example_calls))
   \<and> mark_many example_store 1 ''Restart gate service'' (Some 7) None None example_calls
       = \<lparr>feedback =
            [\<lparr>fb_id = 1, fb_incident_description = ''Gate down'',
              fb_solution_description = ''Restart gate service'', fb_solution_order = 1,
              fb_solution_type = ''Resolution'', fb_source_type = ''Knowledge Base'',
              fb_knowledge_base_id = Some 7, fb_training_data_id = None, fb_rca_id = None,
              fb_usefulness_count = 3, fb_marked_at = 30\<rparr>],
          knowledge = [example_entry 7 ''Gate service'' 3], training = []\<rparr>
   \<and> unmark_step_useful 40
         (snd (mark_step_useful 10 example_store 1 ''Restart gate service'' (Some 7) None None
                 None ''Resolution''))
         1 ''Restart gate service'' (Some 7) None None
       = (\<lparr>success = True, usefulness_count = None, message = Some ''Step unmarked as useful.''\<rparr>,
          example_store)
   \<and> unmark_step_useful 40 example_store 1 ''Restart gate service'' (Some 7) None None
       = (\<lparr>success = False, usefulness_count = None,
           message = Some ''No feedback found to remove.''\<rparr>, example_store)"
proof -
  have none: "filter (identity_row ''Restart gate service'' 1 (Some 7) None None)
                (feedback example_store) = []"
    by code_simp
  have calls: "example_calls \<noteq> []"
    by code_simp
  have "\<exists>row. filter (identity_row ''Restart gate service'' 1 (Some 7) None None)
                (feedback (mark_many example_store 1 ''Restart gate service'' (Some 7) None None
                   example_calls)) = [row]
          \<and> fb_usefulness_count row = int (length example_calls)"
    using none calls
      feedback_ledger [of "''Restart gate service''" 1 "Some 7" None None example_store example_calls]
    by blast
  moreover have "mark_many example_store 1 ''Restart gate service'' (Some 7) None None example_calls
       = \<lparr>feedback =
            [\<lparr>fb_id = 1, fb_incident_description = ''Gate down'',
              fb_solution_description = ''Restart gate service'', fb_solution_order = 1,
              fb_solution_type = ''Resolution'', fb_source_type = ''Knowledge Base'',
              fb_knowledge_base_id = Some 7, fb_training_data_id = None, fb_rca_id = None,
              fb_usefulness_count = 3, fb_marked_at = 30\<rparr>],
          knowledge = [example_entry 7 ''Gate service'' 3], training = []\<rparr>"
    by code_simp
  moreover have "unmark_step_useful 40
         (snd (mark_step_useful 10 example_store 1 ''Restart gate service'' (Some 7) None None
                 None ''Resolution''))
         1 ''Restart gate service'' (Some 7) None None
       = (\<lparr>success = True, usefulness_count = None, message = Some ''Step unmarked as useful.''\<rparr>,
          example_store)"
    by code_simp
  moreover have "unmark_step_useful 40 example_store 1 ''Restart gate service'' (Some 7) None None
       = (\<lparr>success = False, usefulness_count = None,
           message = Some ''No feedback found to remove.''\<rparr>, example_store)"
    by code_simp
  ultimately show ?thesis
    using none calls by (simp only: simp_thms)
qed

section \<open>Properties of the container duplication analysis\<close>

lemma sorted_desc_hd_last:
  fixes f :: "'a \<Rightarrow> int"
  assumes "xs \<noteq> []"
  shows "f (hd (sort_key (\<lambda>x. - f x) xs)) = Max (f ` set xs)"
    and "f (last (sort_key (\<lambda>x. - f x) xs)) = Min (f ` set xs)"
proof -
  let ?s = "sort_key (\<lambda>x. - f x) xs"
  have s: "sorted (map (\<lambda>x. - f x) ?s)" and ne: "?s \<noteq> []" and set: "set ?s = set xs"
    using assms by (simp_all add: sorted_sort_key) (metis length_0_conv length_sort)
  have hd_max: "f y \<le> f (hd ?s)" if "y \<in> set xs" for y
  proof -
    obtain a as where as: "?s = a # as"
      using ne by (cases ?s) auto
    with s that set show ?thesis
      by (auto simp add: as)
  qed
  have last_min: "f (last ?s) \<le> f y" if "y \<in> set xs" for y
  proof -
    have "y \<in> set ?s"
      using that set by simp
    then obtain i where i: "i < length ?s" "?s ! i = y"
      by (metis in_set_conv_nth)
    have "map (\<lambda>x. - f x) ?s ! i \<le> map (\<lambda>x. - f x) ?s ! (length ?s - 1)"
      using s i(1) by (intro sorted_nth_mono) auto
    then show ?thesis
      using i ne by (simp add: last_conv_nth)
  qed
  show "f (hd ?s) = Max (f ` set xs)"
    using hd_max ne set by (intro Max_eqI [symmetric]) (auto intro!: imageI hd_in_set [of ?s, simplified set])
  show "f (last ?s) = Min (f ` set xs)"
    using last_min ne set by (intro Min_eqI [symmetric]) (auto intro!: imageI last_in_set [of ?s, simplified set])
qed

lemma differs_self [simp]: "\<not> differs c c"
  by (simp add: differs_def)

lemma list_ex_tl_hd:
  "xs \<noteq> [] \<Longrightarrow> list_ex (\<lambda>c. differs c (hd xs)) (tl xs) \<longleftrightarrow> (\<exists>c \<in> set xs. differs c (hd xs))"
  by (cases xs) (auto simp add: list_ex_iff)

text \<open>
  C5. With zero or one row for the container number the analysis reports no duplicates.
  With two or more rows: if any row differs from the first (newest) one in status, vessel,
  origin or destination, the issue type is \<open>data_inconsistency\<close>; if no row does and the
  latest and the earliest \<open>created_at\<close> are less than 5 seconds apart, the issue type is
  \<open>rapid_duplicate_insert\<close> and the root cause carries that time difference.
\<close>

theorem container_duplicates:
  "(length (get_container_by_number ops_db cntr_no) \<le> 1 \<longrightarrow>
      detect_container_duplicates ops_db cntr_no
        = No_Duplicates (length (get_container_by_number ops_db cntr_no))
      \<and> \<not> has_duplicates (detect_container_duplicates ops_db cntr_no))
   \<and> (2 \<le> length (get_container_by_number ops_db cntr_no)
        \<and> (\<exists>c \<in> set (get_container_by_number ops_db cntr_no).
               differs c (hd (get_container_by_number ops_db cntr_no))) \<longrightarrow>
      has_duplicates (detect_container_duplicates ops_db cntr_no)
      \<and> issue_type (detect_container_duplicates ops_db cntr_no) = Some ''data_inconsistency'')
   \<and> (2 \<le> length (get_container_by_number ops_db cntr_no)
        \<and> (\<forall>c \<in> set (get_container_by_number ops_db cntr_no).
               \<not> differs c (hd (get_container_by_number ops_db cntr_no)))
        \<and> total_seconds (Max (c_created_at ` set (get_container_by_number ops_db cntr_no))
                          - Min (c_created_at ` set (get_container_by_number ops_db cntr_no))) < 5 \<longrightarrow>
      has_duplicates (detect_container_duplicates ops_db cntr_no)
      \<and> issue_type (detect_container_duplicates ops_db cntr_no) = Some ''rapid_duplicate_insert''
      \<and> dup_root_cause (detect_container_duplicates ops_db cntr_no)
          = Some [Lit ''Multiple inserts within '',
                  Fixed1 (total_seconds
                    (Max (c_created_at ` set (get_container_by_number ops_db cntr_no))
                     - Min (c_created_at ` set (get_container_by_number ops_db cntr_no)))),
                  Lit ''s - likely race condition or double-submit''])"
proof -
  let ?rows = "get_container_by_number ops_db cntr_no"
  let ?match = "filter (\<lambda>c. c_cntr_no c = upper cntr_no) ops_db"
  have rows: "?rows = sort_key (\<lambda>c. - c_created_at c) ?match"
    by (simp add: get_container_by_number_def)
  have span: "c_created_at (hd ?rows) - c_created_at (last ?rows)
                = Max (c_created_at ` set ?rows) - Min (c_created_at ` set ?rows)"
    if "2 \<le> length ?rows"
  proof -
    have "?match \<noteq> []"
      using that by (auto simp add: rows)
    from sorted_desc_hd_last [OF this, of c_created_at] show ?thesis
      by (simp add: rows)
  qed
  have ex: "list_ex (\<lambda>c. differs c (hd ?rows)) (tl ?rows) \<longleftrightarrow> (\<exists>c \<in> set ?rows. differs c (hd ?rows))"
    if "2 \<le> length ?rows"
    using that by (intro list_ex_tl_hd) auto
  show ?thesis
    using span ex by (auto simp add: detect_container_duplicates_def Let_def)
qed

theorem container_duplicates_witness:
  "2 \<le> length (get_container_by_number
         [example_container IN_YARD 1000000, example_container IN_YARD 3000000] ''msku0000001'')
   \<and> total_seconds
         (Max (c_created_at ` set (get_container_by_number
            [example_container IN_YARD 1000000, example_container IN_YARD 3000000] ''msku0000001''))
          - Min (c_created_at ` set (get_container_by_number
            [example_container IN_YARD 1000000, example_container IN_YARD 3000000] ''msku0000001'')))
       < 5
   \<and> issue_type (detect_container_duplicates
         [example_container IN_YARD 1000000, example_container IN_YARD 3000000] ''msku0000001'')
       = Some ''rapid_duplicate_insert''
   \<and> dup_root_cause (detect_container_duplicates
         [example_container IN_YARD 1000000, example_container IN_YARD 3000000] ''msku0000001'')
       = Some [Lit ''Multiple inserts within '', Fixed1 2,
               Lit ''s - likely race condition or double-submit'']
   \<and> issue_type (detect_container_duplicates
         [example_container IN_YARD 1000000, example_container GATE_OUT 3000000] ''msku0000001'')
       = Some ''data_inconsistency''
   \<and> detect_container_duplicates [example_container IN_YARD 1000000] ''msku0000001''
       = No_Duplicates 1
   \<and> detect_container_duplicates [] ''msku0000001'' = No_Duplicates 0"
proof -
  let ?db = "[example_container IN_YARD 1000000, example_container IN_YARD 3000000]"
  have len: "2 \<le> length (get_container_by_number ?db ''msku0000001'')"
    by code_simp
  have same: "\<forall>c \<in> set (get_container_by_number ?db ''msku0000001'').
      \<not> differs c (hd (get_container_by_number ?db ''msku0000001''))"
    by code_simp
  have span: "Max (c_created_at ` set (get_container_by_number ?db ''msku0000001''))
          - Min (c_created_at ` set (get_container_by_number ?db ''msku0000001'')) = 2000000"
    by code_simp
  have close: "total_seconds
         (Max (c_created_at ` set (get_container_by_number ?db ''msku0000001''))
          - Min (c_created_at ` set (get_container_by_number ?db ''msku0000001''))) < 5"
    by (simp only: span) (simp add: total_seconds_def)
  have rapid: "issue_type (detect_container_duplicates ?db ''msku0000001'')
        = Some ''rapid_duplicate_insert''
      \<and> dup_root_cause (detect_container_duplicates ?db ''msku0000001'')
        = Some [Lit ''Multiple inserts within '',
                Fixed1 (total_seconds
                  (Max (c_created_at ` set (get_container_by_number ?db ''msku0000001''))
                   - Min (c_created_at ` set (get_container_by_number ?db ''msku0000001'')))),
                Lit ''s - likely race condition or double-submit'']"
    using len same close container_duplicates [of ?db "''msku0000001''"] by blast
  have two: "total_seconds 2000000 = 2"
    by (simp add: total_seconds_def)
  have other: "issue_type (detect_container_duplicates
         [example_container IN_YARD 1000000, example_container GATE_OUT 3000000] ''msku0000001'')
       = Some ''data_inconsistency''"
    by code_simp
  have one: "detect_container_duplicates [example_container IN_YARD 1000000] ''msku0000001''
       = No_Duplicates 1"
    by code_simp
  have none: "detect_container_duplicates [] ''msku0000001'' = No_Duplicates 0"
    by code_simp
  show ?thesis
    using len close rapid other one none by (simp only: span two simp_thms)
qed

section \<open>Properties of the vessel advisory conflict detection\<close>

lemma sort_key_single: "sort_key f xs = [a] \<longleftrightarrow> xs = [a]"
proof
  assume s: "sort_key f xs = [a]"
  then have "length xs = 1"
    by (metis length_sort length_Cons list.size(3) One_nat_def)
  then obtain b where "xs = [b]"
    by (cases xs) auto
  with s show "xs = [a]" by simp
qed simp

lemma active_advices:
  "filter (\<lambda>a. va_effective_end_datetime a = None) (get_vessel_advice_by_name ops_db name)
     = sort_key (\<lambda>a. - va_effective_start_datetime a)
         (filter (\<lambda>a. va_system_vessel_name a = name \<and> va_effective_end_datetime a = None) ops_db)"
  by (simp add: get_vessel_advice_by_name_def filter_sort conj_commute)

text \<open>
  C6. Among the advisory rows of a vessel name: with no row at all, or no row whose
  \<open>effective_end_datetime\<close> is NULL, no conflict is reported; with exactly one such
  active row a conflict is reported with error type \<open>VESSEL_ERR_4\<close> and that row's
  advisory number; with more than one, a conflict is reported with error type
  \<open>MULTIPLE_ACTIVE\<close> and the advisory numbers listed are those of all active rows.
\<close>

theorem vessel_advice_conflict:
  "(filter (\<lambda>a. va_system_vessel_name a = name \<and> va_effective_end_datetime a = None) ops_db = []
      \<longrightarrow> \<not> has_conflict (detect_vessel_advice_conflict ops_db berths name)
          \<and> error_type (detect_vessel_advice_conflict ops_db berths name) = None)
   \<and> (filter (\<lambda>a. va_system_vessel_name a = name \<and> va_effective_end_datetime a = None) ops_db = [a]
      \<longrightarrow> has_conflict (detect_vessel_advice_conflict ops_db berths name)
          \<and> error_type (detect_vessel_advice_conflict ops_db berths name) = Some ''VESSEL_ERR_4''
          \<and> active_advice_no (detect_vessel_advice_conflict ops_db berths name)
              = Some (va_vessel_advice_no a))
   \<and> (1 < length (filter (\<lambda>a. va_system_vessel_name a = name
                               \<and> va_effective_end_datetime a = None) ops_db)
      \<longrightarrow> has_conflict (detect_vessel_advice_conflict ops_db berths name)
          \<and> error_type (detect_vessel_advice_conflict ops_db berths name) = Some ''MULTIPLE_ACTIVE''
          \<and> set (advices_ids (detect_vessel_advice_conflict ops_db berths name))
              = va_vessel_advice_no `
                  {a \<in> set ops_db. va_system_vessel_name a = name
                                     \<and> va_effective_end_datetime a = None}
          \<and> length (advices_ids (detect_vessel_advice_conflict ops_db berths name))
              = length (filter (\<lambda>a. va_system_vessel_name a = name
                                      \<and> va_effective_end_datetime a = None) ops_db))"
proof -
  let ?advices = "get_vessel_advice_by_name ops_db name"
  let ?act = "filter (\<lambda>a. va_system_vessel_name a = name \<and> va_effective_end_datetime a = None) ops_db"
  let ?active = "filter (\<lambda>a. va_effective_end_datetime a = None) ?advices"
  have act: "?active = sort_key (\<lambda>a. - va_effective_start_datetime a) ?act"
    by (rule active_advices)
  have none: "\<not> has_conflict (detect_vessel_advice_conflict ops_db berths name)
          \<and> error_type (detect_vessel_advice_conflict ops_db berths name) = None"
    if "?act = []"
  proof -
    have "?active = []"
      using that by (simp only: act) simp
    then show ?thesis
      by (simp add: detect_vessel_advice_conflict_def Let_def)
  qed
  have one: "has_conflict (detect_vessel_advice_conflict ops_db berths name)
          \<and> error_type (detect_vessel_advice_conflict ops_db berths name) = Some ''VESSEL_ERR_4''
          \<and> active_advice_no (detect_vessel_advice_conflict ops_db berths name)
              = Some (va_vessel_advice_no a)"
    if "?act = [a]"
  proof -
    have a: "?active = [a]"
      using that by (simp only: act) simp
    then have "?advices \<noteq> []"
      by auto
    with a show ?thesis
      by (simp add: detect_vessel_advice_conflict_def Let_def)
  qed
  have many: "has_conflict (detect_vessel_advice_conflict ops_db berths name)
          \<and> error_type (detect_vessel_advice_conflict ops_db berths name) = Some ''MULTIPLE_ACTIVE''
          \<and> set (advices_ids (detect_vessel_advice_conflict ops_db berths name))
              = va_vessel_advice_no ` {a \<in> set ops_db. va_system_vessel_name a = name
                                     \<and> va_effective_end_datetime a = None}
          \<and> length (advices_ids (detect_vessel_advice_conflict ops_db berths name)) = length ?act"
    if "1 < length ?act"
  proof -
    have len: "1 < length ?active" and set: "set ?active = set ?act" and l: "length ?active = length ?act"
      using that by (simp_all only: act length_sort set_sort)
    then have "?active \<noteq> []" and "?advices \<noteq> []"
      by auto
    with len have "detect_vessel_advice_conflict ops_db berths name
        = Multiple_Active (length ?active)
            ''Data integrity violation - multiple active advices found (should be prevented by unique constraint)''
            (map (\<lambda>a. (va_vessel_advice_no a, va_effective_start_datetime a)) ?active)"
      by (simp add: detect_vessel_advice_conflict_def Let_def)
    then show ?thesis
      using set l by (simp add: comp_def)
  qed
  show ?thesis
    using none one many by blast
qed

theorem vessel_advice_conflict_witness:
  "filter (\<lambda>a. va_system_vessel_name a = ''LION CITY 07'' \<and> va_effective_end_datetime a = None)
       [example_advice 11 100 (Some 200), example_advice 12 300 None]
     = [example_advice 12 300 None]
   \<and> error_type (detect_vessel_advice_conflict
        [example_advice 11 100 (Some 200), example_advice 12 300 None] [] ''LION CITY 07'')
       = Some ''VESSEL_ERR_4''
   \<and> active_advice_no (detect_vessel_advice_conflict
        [example_advice 11 100 (Some 200), example_advice 12 300 None] [] ''LION CITY 07'')
       = Some 12
   \<and> detect_vessel_advice_conflict
        [example_advice 11 100 None, example_advice 12 300 None] [] ''LION CITY 07''
       = Multiple_Active 2
           ''Data integrity violation - multiple active advices found (should be prevented by unique constraint)''
           [(12, 300), (11, 100)]
   \<and> detect_vessel_advice_conflict [example_advice 11 100 (Some 200)] [] ''LION CITY 07''
       = No_Active 1 [Lit ''No active advice found, '', Num 1, Lit '' historical record(s) exist'']
   \<and> detect_vessel_advice_conflict [] [] ''LION CITY 07'' = No_Advice"
proof -
  let ?db = "[example_advice 11 100 (Some 200), example_advice 12 300 None]"
  have one: "filter (\<lambda>a. va_system_vessel_name a = ''LION CITY 07'' \<and> va_effective_end_datetime a = None)
       ?db = [example_advice 12 300 None]"
    by code_simp
  have no: "va_vessel_advice_no (example_advice 12 300 None) = 12"
    by code_simp
  have "error_type (detect_vessel_advice_conflict ?db [] ''LION CITY 07'') = Some ''VESSEL_ERR_4''
      \<and> active_advice_no (detect_vessel_advice_conflict ?db [] ''LION CITY 07'')
          = Some (va_vessel_advice_no (example_advice 12 300 None))"
    using one vessel_advice_conflict [where name = "''LION CITY 07''" and ops_db = ?db
        and a = "example_advice 12 300 None" and berths = "[]"]
    by blast
  moreover have "detect_vessel_advice_conflict
        [example_advice 11 100 None, example_advice 12 300 None] [] ''LION CITY 07''
       = Multiple_Active 2
           ''Data integrity violation - multiple active advices found (should be prevented by unique constraint)''
           [(12, 300), (11, 100)]"
    by code_simp
  moreover have "detect_vessel_advice_conflict [example_advice 11 100 (Some 200)] [] ''LION CITY 07''
       = No_Active 1 [Lit ''No active advice found, '', Num 1, Lit '' historical record(s) exist'']"
    by code_simp
  moreover have "detect_vessel_advice_conflict [] [] ''LION CITY 07'' = No_Advice"
    by code_simp
  ultimately show ?thesis
    using one by (simp only: no simp_thms)
qed

section \<open>Properties of the API event cascade detection\<close>

lemma cascade_groups_nonempty: "cascade_groups w (e # es) \<noteq> []"
  by (induction es arbitrary: e) (auto split: list.splits)

lemma cascade_groups_Cons2:
  "cascade_groups w (e # e' # es) =
     (if gap_seconds e e' \<le> real_of_int w then glue [e] (cascade_groups w (e' # es))
      else [e] # cascade_groups w (e' # es))"
  using cascade_groups_nonempty [of w e' es]
  by (auto simp add: glue_def gap_seconds_def split: list.splits)

lemma glue_glue: "glue pre (glue [l] gs) = glue (pre @ [l]) gs"
  by (simp add: glue_def split: list.splits)

lemma glue_Cons: "glue pre (g # gs) = (pre @ g) # gs"
  by (simp add: glue_def)

lemma glue_Nil: "glue [] gs = gs"
  by (simp add: glue_def split: list.splits)

lemma cascade_loop_groups:
  "cascade_loop w (pre @ [l]) acc es =
     acc @ map cascade_of (filter (\<lambda>g. 2 \<le> length g) (glue pre (cascade_groups w (l # es))))"
proof (induction es arbitrary: pre l acc)
  case Nil
  show ?case
    by (simp add: glue_def)
next
  case (Cons e es)
  show ?case
  proof (cases "gap_seconds l e \<le> real_of_int w")
    case True
    then have "cascade_loop w (pre @ [l]) acc (e # es) = cascade_loop w ((pre @ [l]) @ [e]) acc es"
      by (simp add: gap_seconds_def)
    also have "\<dots> = acc @ map cascade_of
        (filter (\<lambda>g. 2 \<le> length g) (glue (pre @ [l]) (cascade_groups w (e # es))))"
      by (rule Cons.IH)
    finally show ?thesis
      using True by (simp add: cascade_groups_Cons2 glue_glue del: cascade_groups.simps)
  next
    case False
    let ?acc = "if 2 \<le> length (pre @ [l]) then acc @ [cascade_of (pre @ [l])] else acc"
    from False have "cascade_loop w (pre @ [l]) acc (e # es) = cascade_loop w ([] @ [e]) ?acc es"
      by (simp add: gap_seconds_def)
    also have "\<dots> = ?acc @ map cascade_of
        (filter (\<lambda>g. 2 \<le> length g) (glue [] (cascade_groups w (e # es))))"
      by (rule Cons.IH)
    finally show ?thesis
      using False by (simp add: cascade_groups_Cons2 glue_Nil glue_Cons del: cascade_groups.simps)
  qed
qed

lemma detect_api_event_cascade_groups:
  "detect_api_event_cascade ops_db start end w =
     map cascade_of (filter (\<lambda>g. 2 \<le> length g) (cascade_groups w (error_events ops_db start end)))"
proof (cases "error_events ops_db start end")
  case Nil
  then show ?thesis
    by (simp add: detect_api_event_cascade_def)
next
  case (Cons e es)
  then show ?thesis
    using cascade_loop_groups [of w "[]" e "[]" es]
    by (simp add: detect_api_event_cascade_def glue_Nil)
qed

lemma concat_cascade_groups: "concat (cascade_groups w es) = es"
  by (induction w es rule: cascade_groups.induct) (auto split: list.splits)

lemma cascade_groups_no_empty: "[] \<notin> set (cascade_groups w es)"
  by (induction w es rule: cascade_groups.induct) (auto split: list.splits)

lemma hd_hd_cascade_groups: "hd (hd (cascade_groups w (e # es))) = e"
  by (induction es arbitrary: e) (auto split: list.splits)

lemma cascade_groups_within:
  "\<forall>g \<in> set (cascade_groups w es). successively (\<lambda>a b. gap_seconds a b \<le> real_of_int w) g"
proof (induction w es rule: cascade_groups.induct)
  case (3 w e e' es)
  show ?case
  proof (cases "gap_seconds e e' \<le> real_of_int w")
    case True
    obtain g gs where g: "cascade_groups w (e' # es) = g # gs"
      using cascade_groups_nonempty [of w e' es] by (cases "cascade_groups w (e' # es)") auto
    have "hd g = e'" and "g \<noteq> []"
      using hd_hd_cascade_groups [of w e' es] cascade_groups_no_empty [of w "e' # es"]
      by (auto simp add: g)
    then obtain g' where "g = e' # g'"
      by (cases g) auto
    with True 3 g show ?thesis
      by (auto simp add: gap_seconds_def)
  next
    case False
    with 3 show ?thesis
      by (auto simp add: gap_seconds_def)
  qed
qed simp_all

lemma cascade_groups_between:
  "successively (\<lambda>g g'. \<not> gap_seconds (last g) (hd g') \<le> real_of_int w) (cascade_groups w es)"
proof (induction w es rule: cascade_groups.induct)
  case (3 w e e' es)
  obtain g gs where g: "cascade_groups w (e' # es) = g # gs"
    using cascade_groups_nonempty [of w e' es] by (cases "cascade_groups w (e' # es)") auto
  have hd: "hd g = e'" and ne: "g \<noteq> []"
    using hd_hd_cascade_groups [of w e' es] cascade_groups_no_empty [of w "e' # es"]
    by (auto simp add: g)
  show ?case
  proof (cases "gap_seconds e e' \<le> real_of_int w")
    case True
    with 3 g ne show ?thesis
      by (cases gs) (auto simp add: gap_seconds_def)
  next
    case False
    with 3 g hd show ?thesis
      by (auto simp add: gap_seconds_def)
  qed
qed simp_all

lemma last_filter:
  "xs \<noteq> [] \<Longrightarrow> P (last xs) \<Longrightarrow> filter P xs \<noteq> [] \<and> last (filter P xs) = last xs"
proof -
  assume "xs \<noteq> []" and p: "P (last xs)"
  then have "xs = butlast xs @ [last xs]"
    by simp
  then have "filter P xs = filter P (butlast xs) @ [last xs]"
    using p by (metis filter.simps(1) filter.simps(2) filter_append)
  then show ?thesis
    by simp
qed

lemma error_events_sorted: "sorted (map ev_event_ts (error_events ops_db start end))"
  by (simp add: error_events_def sorted_sort_key)

lemma error_events_set:
  "set (error_events ops_db start end) =
     {e \<in> set ops_db. start \<le> ev_event_ts e \<and> ev_event_ts e \<le> end \<and>
        (\<exists>st. ev_http_status e = Some st \<and> 400 \<le> st)}"
  by (auto simp add: error_events_def split: option.splits)

text \<open>
  C7. The cascades reported are exactly the groups of two or more events among the
  groups into which the time-ordered error events (HTTP status at least 400, inside the
  time range) are cut: the groups partition the event list in order, none is empty,
  inside a group each event follows its predecessor by at most the window, and between
  the last event of a group and the first of the next the gap exceeds the window. Every
  reported cascade has at least two events, and when the last group has two or more
  events it is the last cascade reported.
\<close>

theorem api_event_cascades:
  "detect_api_event_cascade ops_db start end w
     = map cascade_of (filter (\<lambda>g. 2 \<le> length g)
         (cascade_groups w (error_events ops_db start end)))
   \<and> sorted (map ev_event_ts (error_events ops_db start end))
   \<and> concat (cascade_groups w (error_events ops_db start end)) = error_events ops_db start end
   \<and> (\<forall>g \<in> set (cascade_groups w (error_events ops_db start end)).
         g \<noteq> [] \<and> successively (\<lambda>a b. gap_seconds a b \<le> real_of_int w) g)
   \<and> successively (\<lambda>g g'. \<not> gap_seconds (last g) (hd g') \<le> real_of_int w)
         (cascade_groups w (error_events ops_db start end))
   \<and> (\<forall>c \<in> set (detect_api_event_cascade ops_db start end w). 2 \<le> cas_event_count c)
   \<and> (cascade_groups w (error_events ops_db start end) \<noteq> []
        \<and> 2 \<le> length (last (cascade_groups w (error_events ops_db start end))) \<longrightarrow>
      detect_api_event_cascade ops_db start end w \<noteq> []
      \<and> last (detect_api_event_cascade ops_db start end w)
          = cascade_of (last (cascade_groups w (error_events ops_db start end))))"
proof -
  let ?groups = "cascade_groups w (error_events ops_db start end)"
  have eq: "detect_api_event_cascade ops_db start end w
      = map cascade_of (filter (\<lambda>g. 2 \<le> length g) ?groups)"
    by (rule detect_api_event_cascade_groups)
  have nonempty: "\<forall>g \<in> set ?groups. g \<noteq> []"
    using cascade_groups_no_empty [of w "error_events ops_db start end"] by auto
  have count: "\<forall>c \<in> set (detect_api_event_cascade ops_db start end w). 2 \<le> cas_event_count c"
    by (auto simp add: eq cascade_of_def)
  have trailing: "detect_api_event_cascade ops_db start end w \<noteq> []
      \<and> last (detect_api_event_cascade ops_db start end w) = cascade_of (last ?groups)"
    if "?groups \<noteq> []" and "2 \<le> length (last ?groups)"
    using last_filter [of ?groups "\<lambda>g. 2 \<le> length g"] that by (simp add: eq last_map)
  show ?thesis
    using eq nonempty count trailing error_events_sorted [of ops_db start "end"]
      concat_cascade_groups [of w "error_events ops_db start end"]
      cascade_groups_within [of w "error_events ops_db start end"]
      cascade_groups_between [of w "error_events ops_db start end"]
    by blast
qed

theorem api_event_cascades_witness:
  "detect_api_event_cascade
       [example_event 1 500 0, example_event 2 503 3, example_event 5 200 5,
        example_event 3 404 7, example_event 4 500 25] 0 60000000 10
     = [\<lparr>cas_start_time = 0, cas_end_time = 7000000, cas_duration_seconds = 7,
         cas_event_count = 3,
         cas_events = [summary (example_event 1 500 0), summary (example_event 2 503 3),
                       summary (example_event 3 404 7)]\<rparr>]
   \<and> detect_api_event_cascade
       [example_event 1 500 0, example_event 2 503 20, example_event 3 404 23] 0 60000000 10
     = [\<lparr>cas_start_time = 20000000, cas_end_time = 23000000, cas_duration_seconds = 3,
         cas_event_count = 2,
         cas_events = [summary (example_event 2 503 20), summary (example_event 3 404 23)]\<rparr>]"
proof -
  let ?db = "[example_event 1 500 0, example_event 2 503 3, example_event 5 200 5,
        example_event 3 404 7, example_event 4 500 25]"
  have "map cascade_of (filter (\<lambda>g. 2 \<le> length g)
          (cascade_groups 10 (error_events ?db 0 60000000)))
     = [\<lparr>cas_start_time = 0, cas_end_time = 7000000, cas_duration_seconds = 7,
         cas_event_count = 3,
         cas_events = [summary (example_event 1 500 0), summary (example_event 2 503 3),
                       summary (example_event 3 404 7)]\<rparr>]"
    by code_simp
  then have "detect_api_event_cascade ?db 0 60000000 10
     = [\<lparr>cas_start_time = 0, cas_end_time = 7000000, cas_duration_seconds = 7,
         cas_event_count = 3,
         cas_events = [summary (example_event 1 500 0), summary (example_event 2 503 3),
                       summary (example_event 3 404 7)]\<rparr>]"
    using api_event_cascades [of ?db 0 60000000 10] by simp
  moreover have "detect_api_event_cascade
       [example_event 1 500 0, example_event 2 503 20, example_event 3 404 23] 0 60000000 10
     = [\<lparr>cas_start_time = 20000000, cas_end_time = 23000000, cas_duration_seconds = 3,
         cas_event_count = 2,
         cas_events = [summary (example_event 2 503 20), summary (example_event 3 404 23)]\<rparr>]"
    by code_simp
  ultimately show ?thesis
    by (simp only: simp_thms)
qed

section \<open>Properties of the error-fingerprint extractor\<close>

lemma nullable_iff: "nullable r \<longleftrightarrow> [] \<in> lang r"
  by (induction r) (auto intro: star_empty)

lemma lang_seq: "lang (seq r s) = lang (Seq r s)"
  by (induction r s rule: seq.induct) auto

lemma lang_alt: "lang (alt r s) = lang r \<union> lang s"
  by (induction r s rule: alt.induct) auto

lemma star_Cons_split:
  "x \<in> star A \<Longrightarrow> x = c # w \<Longrightarrow> \<exists>u v. w = u @ v \<and> c # u \<in> A \<and> v \<in> star A"
proof (induction arbitrary: w rule: star.induct)
  case star_empty
  then show ?case by simp
next
  case (star_step u v)
  show ?case
  proof (cases u)
    case Nil
    with star_step show ?thesis by simp
  next
    case (Cons a u')
    with star_step.prems star_step.hyps show ?thesis
      by auto
  qed
qed

lemma star_Cons_iff:
  "c # w \<in> star A \<longleftrightarrow> (\<exists>u v. w = u @ v \<and> c # u \<in> A \<and> v \<in> star A)"
proof
  assume "c # w \<in> star A"
  then show "\<exists>u v. w = u @ v \<and> c # u \<in> A \<and> v \<in> star A"
    by (rule star_Cons_split) simp
next
  assume "\<exists>u v. w = u @ v \<and> c # u \<in> A \<and> v \<in> star A"
  then obtain u v where "w = u @ v" "c # u \<in> A" "v \<in> star A"
    by blast
  then show "c # w \<in> star A"
    using star_step [of "c # u" A v] by simp
qed

lemma lang_deriv: "lang (deriv c r) = {w. c # w \<in> lang r}"
proof (induction r)
  case (Seq r s)
  have "c # w \<in> lang (Seq r s) \<longleftrightarrow>
          (\<exists>u v. w = u @ v \<and> c # u \<in> lang r \<and> v \<in> lang s) \<or> ([] \<in> lang r \<and> c # w \<in> lang s)"
    for w
    by (auto simp add: Cons_eq_append_conv)
  with Seq show ?case
    by (auto simp add: lang_seq lang_alt nullable_iff)
next
  case (Star r)
  then show ?case
    by (auto simp add: lang_seq star_Cons_iff)
qed (auto simp add: lang_alt)

lemma match_prefix_iff: "match_prefix r s \<longleftrightarrow> (\<exists>m q. s = m @ q \<and> m \<in> lang r)"
proof (induction s arbitrary: r)
  case Nil
  show ?case by (simp add: nullable_iff)
next
  case (Cons c cs)
  have "(\<exists>m q. c # cs = m @ q \<and> m \<in> lang r) \<longleftrightarrow>
          [] \<in> lang r \<or> (\<exists>m q. cs = m @ q \<and> c # m \<in> lang r)"
    by (auto simp add: Cons_eq_append_conv)
  moreover have "r = Zero \<Longrightarrow> \<not> (\<exists>m q. cs = m @ q \<and> c # m \<in> lang r)"
    by simp
  ultimately show ?case
    using Cons [of "deriv c r"] by (auto simp add: nullable_iff lang_deriv)
qed

text \<open>The matcher finds a match exactly when some substring is in the language.\<close>

lemma re_search_iff: "re_search r s \<longleftrightarrow> (\<exists>p m q. s = p @ m @ q \<and> m \<in> lang r)"
proof (induction s)
  case Nil
  show ?case by (simp add: nullable_iff)
next
  case (Cons c cs)
  have "(\<exists>p m q. c # cs = p @ m @ q \<and> m \<in> lang r) \<longleftrightarrow>
          (\<exists>m q. c # cs = m @ q \<and> m \<in> lang r) \<or> (\<exists>p m q. cs = p @ m @ q \<and> m \<in> lang r)"
  proof
    assume "\<exists>p m q. c # cs = p @ m @ q \<and> m \<in> lang r"
    then obtain p m q where pmq: "c # cs = p @ m @ q" "m \<in> lang r"
      by blast
    show "(\<exists>m q. c # cs = m @ q \<and> m \<in> lang r) \<or> (\<exists>p m q. cs = p @ m @ q \<and> m \<in> lang r)"
    proof (cases p)
      case Nil
      with pmq show ?thesis by auto
    next
      case (Cons a p')
      with pmq show ?thesis by auto
    qed
  next
    assume "(\<exists>m q. c # cs = m @ q \<and> m \<in> lang r) \<or> (\<exists>p m q. cs = p @ m @ q \<and> m \<in> lang r)"
    then show "\<exists>p m q. c # cs = p @ m @ q \<and> m \<in> lang r"
    proof
      assume "\<exists>m q. c # cs = m @ q \<and> m \<in> lang r"
      then show ?thesis
        by (metis append_Nil)
    next
      assume "\<exists>p m q. cs = p @ m @ q \<and> m \<in> lang r"
      then show ?thesis
        by (metis append_Cons)
    qed
  qed
  with Cons show ?case
    by (simp add: match_prefix_iff del: match_prefix.simps)
qed

lemma lang_lit: "lang (lit s) = {s}"
  by (induction s) (auto simp add: lit_def)

lemma lang_plus: "lang (plus r) = {u @ v | u v. u \<in> lang r \<and> v \<in> star (lang r)}"
  by (simp add: plus_def)

lemma lang_opt: "lang (opt r) = insert [] (lang r)"
  by (auto simp add: opt_def)

lemma concat_runs_aux: "concat (runs_aux P cur s) = cur @ filter P s"
  by (induction s arbitrary: cur) auto

lemma runs_aux_token:
  "list_all P cur \<Longrightarrow> t \<in> set (runs_aux P cur s) \<Longrightarrow> t \<noteq> [] \<and> list_all P t"
proof (induction s arbitrary: cur)
  case Nil
  then show ?case
    by (auto split: if_splits)
next
  case (Cons a s)
  show ?case
  proof (cases "P a")
    case True
    then have "list_all P (cur @ [a])"
      using Cons.prems(1) by simp
    from Cons.IH [OF this] Cons.prems(2) True show ?thesis
      by simp
  next
    case False
    have "list_all P []"
      by simp
    from Cons.IH [OF this] Cons.prems False show ?thesis
      by (auto split: if_splits)
  qed
qed

lemma runs_aux_tokens: "\<forall>t \<in> set (runs_aux P [] s). t \<noteq> [] \<and> list_all P t"
  using runs_aux_token [of P "[]" _ s] by simp

lemma find_none: "\<forall>x \<in> set xs. \<not> P x \<Longrightarrow> find P xs = None"
  by (induction xs) auto

lemma find_first:
  "i < length xs \<Longrightarrow> P (xs ! i) \<Longrightarrow> \<forall>x \<in> set (take i xs). \<not> P x \<Longrightarrow> find P xs = Some (xs ! i)"
proof (induction xs arbitrary: i)
  case Nil
  then show ?case by simp
next
  case (Cons x xs)
  then show ?case
    by (cases i) auto
qed

lemma extract_error_type_first:
  assumes "i < length patterns" and "re_search (fst (patterns ! i)) (lower d)"
    and "\<forall>x \<in> set (take i patterns). \<not> re_search (fst x) (lower d)"
  shows "extract_error_type d = snd (patterns ! i)"
proof -
  have "find (\<lambda>x. re_search (fst x) (lower d)) patterns = Some (patterns ! i)"
    using assms by (rule find_first)
  then show ?thesis
    by (simp add: extract_error_type_def case_prod_unfold)
qed

lemma extract_error_type_fallback:
  assumes "\<forall>x \<in> set patterns. \<not> re_search (fst x) (lower d)"
  shows "extract_error_type d =
           (case findall_words (lower d) of
              [] \<Rightarrow> ''unknown_error''
            | [w] \<Rightarrow> w
            | w # w' # ws \<Rightarrow> w @ ''_'' @ w')"
proof -
  have "find (\<lambda>x. re_search (fst x) (lower d)) patterns = None"
    using assms by (rule find_none)
  then show ?thesis
    by (simp add: extract_error_type_def case_prod_unfold Let_def slice_to_def
          split: list.splits)
qed

text \<open>
  C8, as stated: the fallback takes alphanumeric tokens. The text \<open>_\<close> has no
  alphanumeric character and the result is \<open>_\<close>, not \<open>unknown_error\<close>; on \<open>a_b c\<close>,
  which no rule matches, the first two alphanumeric tokens joined are \<open>a_b\<close> and the
  result is \<open>a_b_c\<close>. The tokens are those of \<open>\w+\<close>, and \<open>\w\<close> includes the
  underscore.
\<close>

theorem fingerprint_underscore_counterexample:
  "filter isalnum ''_'' = []
   \<and> extract_error_type ''_'' = ''_''
   \<and> extract_error_type ''_'' \<noteq> ''unknown_error''
   \<and> list_all (\<lambda>x. \<not> re_search (fst x) (lower ''a_b c'')) patterns
   \<and> join ''_'' (take 2 (runs_aux isalnum [] (lower ''a_b c''))) = ''a_b''
   \<and> extract_error_type ''a_b c'' = ''a_b_c''"
  by code_simp

text \<open>
  C8, amended: the extractor is a function of the text alone. It returns the tag of the
  first rule, in list order, whose pattern is found in the lowercased text, so when
  several rules match, the earliest one decides. If no rule matches, it takes the word
  tokens of the lowercased text, the maximal runs of word characters (alphanumeric
  characters and the underscore), and returns \<open>unknown_error\<close> if there is none, the
  token if there is one, and otherwise the first two joined by an underscore.
\<close>

theorem error_fingerprint:
  "(i < length patterns \<and> re_search (fst (patterns ! i)) (lower d)
      \<and> (\<forall>x \<in> set (take i patterns). \<not> re_search (fst x) (lower d))
    \<longrightarrow> extract_error_type d = snd (patterns ! i))
   \<and> ((\<forall>x \<in> set patterns. \<not> re_search (fst x) (lower d))
    \<longrightarrow> extract_error_type d =
          (case findall_words (lower d) of
             [] \<Rightarrow> ''unknown_error''
           | [w] \<Rightarrow> w
           | w # w' # ws \<Rightarrow> w @ ''_'' @ w'))
   \<and> concat (findall_words (lower d)) = filter is_word (lower d)
   \<and> (\<forall>t \<in> set (findall_words (lower d)). t \<noteq> [] \<and> list_all is_word t)"
  using extract_error_type_first [of i d] extract_error_type_fallback [of d]
    concat_runs_aux [of is_word "[]" "lower d"] runs_aux_tokens [of is_word "lower d"]
  by (simp add: findall_words_def)

theorem error_fingerprint_witness:
  "(14 :: nat) < length patterns
   \<and> re_search (fst (patterns ! 14)) (lower ''Timeout after deadlock'')
   \<and> re_search (fst (patterns ! 15)) (lower ''Timeout after deadlock'')
   \<and> snd (patterns ! 14) = ''timeout''
   \<and> snd (patterns ! 15) = ''deadlock''
   \<and> extract_error_type ''Timeout after deadlock'' = ''timeout''
   \<and> findall_words (lower ''Gate 4 jammed'') = [''gate'', ''4'', ''jammed'']
   \<and> extract_error_type ''Gate 4 jammed'' = ''gate_4''
   \<and> extract_error_type ''?!'' = ''unknown_error''"
proof -
  have i: "(14 :: nat) < length patterns"
    by code_simp
  have m14: "re_search (fst (patterns ! 14)) (lower ''Timeout after deadlock'')"
    by code_simp
  have m15: "re_search (fst (patterns ! 15)) (lower ''Timeout after deadlock'')"
    by code_simp
  have before: "\<forall>x \<in> set (take 14 patterns). \<not> re_search (fst x) (lower ''Timeout after deadlock'')"
    by code_simp
  have t14: "snd (patterns ! 14) = ''timeout''" and t15: "snd (patterns ! 15) = ''deadlock''"
    by code_simp+
  have "extract_error_type ''Timeout after deadlock'' = snd (patterns ! 14)"
    using i m14 before error_fingerprint [of 14 "''Timeout after deadlock''"] by blast
  then have first: "extract_error_type ''Timeout after deadlock'' = ''timeout''"
    by (simp only: t14)
  have none: "\<forall>x \<in> set patterns. \<not> re_search (fst x) (lower ''Gate 4 jammed'')"
    by code_simp
  have words: "findall_words (lower ''Gate 4 jammed'') = [''gate'', ''4'', ''jammed'']"
    by code_simp
  have "extract_error_type ''Gate 4 jammed'' =
          (case findall_words (lower ''Gate 4 jammed'') of
             [] \<Rightarrow> ''unknown_error''
           | [w] \<Rightarrow> w
           | w # w' # ws \<Rightarrow> w @ ''_'' @ w')"
    using none error_fingerprint [of 0 "''Gate 4 jammed''"] by blast
  then have fallback: "extract_error_type ''Gate 4 jammed'' = ''gate_4''"
    by (simp only: words) simp
  have sentinel: "extract_error_type ''?!'' = ''unknown_error''"
    by code_simp
  show ?thesis
    using i m14 m15 t14 t15 first words fallback sentinel by (simp only: simp_thms)
qed

section \<open>Properties of the hypothesis builder\<close>

lemma insert_front_eq: "insert_front mk xs hs = rev (List.map_filter mk xs) @ hs"
  unfolding insert_front_def
  by (induction xs arbitrary: hs) (simp_all add: List.map_filter_simps split: option.splits)

lemma edi_confidence: "edi_hypothesis e = Some h \<Longrightarrow> h_confidence h = 90 / 100"
  by (auto split: option.splits if_splits)

lemma vessel_confidence: "vessel_hypothesis v = Some h \<Longrightarrow> h_confidence h = 98 / 100"
  by (auto split: advice_conflict.splits)

lemma container_confidence: "container_hypothesis c = Some h \<Longrightarrow> h_confidence h = 95 / 100"
  by (auto split: dup_analysis.splits)

lemma edi_confidences:
  "\<forall>h \<in> set (List.map_filter edi_hypothesis xs). h_confidence h = 90 / 100"
  using edi_confidence by (auto simp add: List.map_filter_def simp del: edi_hypothesis.simps)

lemma vessel_confidences:
  "\<forall>h \<in> set (List.map_filter vessel_hypothesis xs). h_confidence h = 98 / 100"
  using vessel_confidence by (auto simp add: List.map_filter_def simp del: vessel_hypothesis.simps)

lemma container_confidences:
  "\<forall>h \<in> set (List.map_filter container_hypothesis xs). h_confidence h = 95 / 100"
  using container_confidence
  by (auto simp add: List.map_filter_def simp del: container_hypothesis.simps)

lemma vessel_hypothesis_iff:
  "vessel_hypothesis v \<noteq> None \<longleftrightarrow>
     has_conflict (vf_advice_conflict v) \<and> error_type (vf_advice_conflict v) = Some ''VESSEL_ERR_4''"
  by (cases "vf_advice_conflict v") simp_all

lemma container_hypothesis_iff:
  "container_hypothesis c \<noteq> None \<longleftrightarrow> has_duplicates (cf_duplication_analysis c)"
  by (cases "cf_duplication_analysis c") simp_all

lemma edi_hypothesis_iff:
  "edi_hypothesis e \<noteq> None \<longleftrightarrow> (\<exists>cause. edi_root_cause e = Some cause \<and> cause \<noteq> [])"
  by (cases "edi_root_cause e") simp_all

lemma build_hypotheses_None:
  "build_hypotheses similar recommended n_sops logs None \<noteq> []
   \<and> (similar \<noteq> [] \<longrightarrow>
        build_hypotheses similar recommended n_sops logs None
          = similarity_hypothesis (hd similar) (length similar) recommended n_sops # logs)"
  by (auto simp add: build_hypotheses_def Let_def split: list.splits)

lemma similarity_confidence:
  "h_confidence (similarity_hypothesis most_similar k recommended n_sops) = 85 / 100"
  by (simp add: similarity_hypothesis_def Let_def split: list.splits)

lemma build_hypotheses_Some:
  "build_hypotheses similar recommended n_sops logs (Some f) =
     rev (List.map_filter edi_hypothesis (f_edi_messages f))
     @ rev (List.map_filter vessel_hypothesis (f_vessels f))
     @ rev (List.map_filter container_hypothesis (f_containers f))
     @ build_hypotheses similar recommended n_sops logs None"
  by (simp add: build_hypotheses_def Let_def insert_front_eq)

text \<open>
  C9, as stated: with all three operational anomalies present the list starts with the
  0.98 vessel advisory conflict. The EDI hypotheses are inserted at the front last, so
  the list starts with the 0.90 EDI hypothesis.
\<close>

theorem hypotheses_head_counterexample:
  "has_duplicates (cf_duplication_analysis (hd (f_containers example_findings)))
   \<and> error_type (vf_advice_conflict (hd (f_vessels example_findings))) = Some ''VESSEL_ERR_4''
   \<and> edi_root_cause (hd (f_edi_messages example_findings))
       = Some ''EDI message structure incomplete - required segment not found''
   \<and> h_confidence (hd (build_hypotheses [example_case 1 ''Duplicate container'' None] [] 0 []
                          (Some example_findings))) = 90 / 100
   \<and> h_confidence (hd (build_hypotheses [example_case 1 ''Duplicate container'' None] [] 0 []
                          (Some example_findings))) \<noteq> 98 / 100"
  by code_simp

text \<open>
  C9, amended: the hypotheses of the operational anomalies are placed ahead of the
  similarity-based hypothesis (confidence 0.85) and the log-derived hypotheses, in this
  order: first those of the EDI findings with a root cause (0.90), then those of the
  vessel advisory conflicts \<open>VESSEL_ERR_4\<close> (0.98), then those of the container
  duplications (0.95), each kind in reverse order of its findings. The rest of the list
  is never empty, and with a similar incident it starts with the similarity-based
  hypothesis.
\<close>

theorem hypotheses_order:
  "build_hypotheses similar recommended n_sops logs (Some f) =
     rev (List.map_filter edi_hypothesis (f_edi_messages f))
     @ rev (List.map_filter vessel_hypothesis (f_vessels f))
     @ rev (List.map_filter container_hypothesis (f_containers f))
     @ build_hypotheses similar recommended n_sops logs None
   \<and> (\<forall>h \<in> set (List.map_filter edi_hypothesis (f_edi_messages f)). h_confidence h = 90 / 100)
   \<and> (\<forall>h \<in> set (List.map_filter vessel_hypothesis (f_vessels f)). h_confidence h = 98 / 100)
   \<and> (\<forall>h \<in> set (List.map_filter container_hypothesis (f_containers f)). h_confidence h = 95 / 100)
   \<and> build_hypotheses similar recommended n_sops logs None \<noteq> []
   \<and> (similar \<noteq> [] \<longrightarrow>
        build_hypotheses similar recommended n_sops logs None
          = similarity_hypothesis (hd similar) (length similar) recommended n_sops # logs
        \<and> h_confidence (similarity_hypothesis (hd similar) (length similar) recommended n_sops)
            = 85 / 100)"
  using build_hypotheses_Some [of similar recommended n_sops logs f]
    edi_confidences [of "f_edi_messages f"] vessel_confidences [of "f_vessels f"]
    container_confidences [of "f_containers f"]
    build_hypotheses_None [of similar recommended n_sops logs]
    similarity_confidence [of "hd similar" "length similar" recommended n_sops]
  by blast

theorem hypotheses_order_witness:
  "map h_confidence
       (build_hypotheses [example_case 1 ''Duplicate container'' None] [] 0 []
          (Some example_findings))
     = [90 / 100, 98 / 100, 95 / 100, 85 / 100]
   \<and> map h_confidence
       (build_hypotheses [example_case 1 ''Duplicate container'' None] [] 0 []
          (Some (example_findings\<lparr>f_edi_messages := []\<rparr>)))
     = [98 / 100, 95 / 100, 85 / 100]"
proof -
  let ?sim = "[example_case 1 ''Duplicate container'' None]"
  have "map h_confidence
       (rev (List.map_filter edi_hypothesis (f_edi_messages example_findings))
        @ rev (List.map_filter vessel_hypothesis (f_vessels example_findings))
        @ rev (List.map_filter container_hypothesis (f_containers example_findings))
        @ build_hypotheses ?sim [] 0 [] None)
     = [90 / 100, 98 / 100, 95 / 100, 85 / 100]"
    by code_simp
  then have "map h_confidence (build_hypotheses ?sim [] 0 [] (Some example_findings))
     = [90 / 100, 98 / 100, 95 / 100, 85 / 100]"
    using hypotheses_order [of ?sim "[]" 0 "[]" example_findings] by simp
  moreover have "map h_confidence
       (build_hypotheses ?sim [] 0 [] (Some (example_findings\<lparr>f_edi_messages := []\<rparr>)))
     = [98 / 100, 95 / 100, 85 / 100]"
    by code_simp
  ultimately show ?thesis
    by (simp only: simp_thms)
qed

end
